theory Spec2Isabelle
  imports Complex_Main
begin

section \<open>Python values, exceptions and results\<close>

text \<open>
  The crawler of \<^verbatim>\<open>sci_spider-fenqu.py\<close> is embedded function by function.
  Python strings are \<^typ>\<open>string\<close>, one \<^typ>\<open>char\<close> per character; the only
  character tests of the source are on ASCII code points. The elements of the DOI list
  are Python lists \<^verbatim>\<open>[doi, factor, jcr]\<close> built by
  \<^verbatim>\<open>get_dois_and_impact_factors\<close>; their components are strings, \<^verbatim>\<open>None\<close>
  or numbers. A number is never computed with, only formatted or rejected by a string
  operation, so it is carried as its \<^verbatim>\<open>str()\<close> rendering.
\<close>

datatype pyval = PyStr string | PyNone | PyNum string

text \<open>What a parameter declared \<^verbatim>\<open>doi: str = None\<close> may receive at run time.\<close>

datatype pyarg = Val pyval | Tup "pyval list"

datatype exn = TypeError | IndexError | ValueError | OSError | RecursionError | ParserError

section \<open>File names\<close>

text \<open>
  \<^verbatim>\<open>re.sub(r'[^0-9A-Za-z\-,._;]', '_', filename)[:name_len]\<close>: the character class,
  by code point.
\<close>

definition allowed_char :: "char \<Rightarrow> bool" where
  "allowed_char c =
     (let n = (of_char c :: nat) in
      (48 \<le> n \<and> n \<le> 57) \<or> (65 \<le> n \<and> n \<le> 90) \<or> (97 \<le> n \<and> n \<le> 122)
      \<or> c = CHR ''-'' \<or> c = CHR '','' \<or> c = CHR ''.'' \<or> c = CHR ''_'' \<or> c = CHR '';'')"

definition re_sub_underscore :: "string \<Rightarrow> string" where
  "re_sub_underscore s = map (\<lambda>c. if allowed_char c then c else CHR ''_'') s"

text \<open>Python's slice \<^verbatim>\<open>s[:n]\<close>; a negative \<^verbatim>\<open>n\<close> counts from the end.\<close>

definition py_slice_to :: "int \<Rightarrow> 'a list \<Rightarrow> 'a list" where
  "py_slice_to n xs =
     (if 0 \<le> n then take (nat n) xs else take (nat (int (length xs) + n)) xs)"

definition get_valid_filename :: "string \<Rightarrow> int \<Rightarrow> string" where
  "get_valid_filename filename name_len = py_slice_to name_len (re_sub_underscore filename)"

text \<open>The default \<^verbatim>\<open>name_len = 128\<close>, which every call of the source uses.\<close>

definition default_name_len :: int where
  "default_name_len = 128"

section \<open>The world outside the program\<close>

text \<open>
  What the program prints, by kind of message (the source's texts are not ASCII).
\<close>

datatype msg =
    CacheWriteError
  | NotIndexed
  | ParseError exn
  | RobotsError
  | DownloadingPage string
  | DownloadFailed int
  | DownloadError
  | DownloadingFile string
  | FileDownloadFailed int
  | FileSaved string
  | FileDownloadError
  | StartLoop
  | AlreadyDownloaded string
  | Blocked string
  | Finished nat nat

text \<open>
  \<^verbatim>\<open>requests.get\<close> answers with a response (status code, text, content) or raises
  a \<^verbatim>\<open>RequestException\<close>, the base class of every exception of that library.
\<close>

datatype response = Response int string string | RequestException

text \<open>
  The observable state: the clock read by \<^verbatim>\<open>time.time()\<close> (floats idealised as
  reals), the URLs requested over the network so far, the binary files written, the
  dumps of the cache file, the directories made, and what was printed.
\<close>

record io =
  now :: real
  sent :: "string list"
  saved :: "(string \<times> string) list"
  dumps :: "(string \<times> (string \<rightharpoonup> string)) list"
  made_dirs :: "string list"
  printed :: "msg list"

text \<open>
  A call returns a value or raises, in either case with the state it leaves behind.
\<close>

datatype 'a res = Ret 'a io | Raise exn io

text \<open>The two components of \<^verbatim>\<open>urlparse(url)\<close> that the source reads.\<close>

record url_parts =
  scheme :: string
  netloc :: string

text \<open>
  An element of the parsed page with its attributes, and the page as the answers to the
  four XPath queries of \<^verbatim>\<open>get_link_xpath\<close>.
\<close>

record element =
  attrs :: "string \<rightharpoonup> string"

record tree =
  xpath_buttons :: "element list"
  xpath_anchors :: "element list"
  xpath_citation_i :: "string list"
  xpath_citation :: "string list"

text \<open>
  The environment and the libraries whose code is not the repository's: the web (the
  response to a URL when it is the \<open>k\<close>-th request of the run), the outcome of
  \<^verbatim>\<open>RobotFileParser.read\<close> for a robots URL (\<open>None\<close> when it raises, else the
  \<^verbatim>\<open>can_fetch\<close> predicate on agent and URL), which paths can be written,
  \<^verbatim>\<open>urlparse\<close>, \<^verbatim>\<open>lxml\<close>'s parser with the XPath queries, and the number of
  nested calls the interpreter allows.
\<close>

record world =
  web :: "string \<Rightarrow> nat \<Rightarrow> response"
  robots :: "string \<Rightarrow> (string \<Rightarrow> string \<Rightarrow> bool) option"
  writable :: "string \<Rightarrow> bool"
  urlparse :: "string \<Rightarrow> exn + url_parts"
  parse_html :: "string \<Rightarrow> exn + tree"
  recursion_limit :: nat

definition print :: "msg \<Rightarrow> io \<Rightarrow> io" where
  "print m s = s\<lparr>printed := printed s @ [m]\<rparr>"

definition requests_get :: "world \<Rightarrow> string \<Rightarrow> io \<Rightarrow> response \<times> io" where
  "requests_get W url s = (web W url (length (sent s)), s\<lparr>sent := sent s @ [url]\<rparr>)"

definition sleep :: "real \<Rightarrow> io \<Rightarrow> io" where
  "sleep secs s = s\<lparr>now := now s + secs\<rparr>"

text \<open>\<^verbatim>\<open>os.path.join\<close> of two components (POSIX).\<close>

definition os_path_join :: "string \<Rightarrow> string \<Rightarrow> string" where
  "os_path_join a b =
     (if b \<noteq> [] \<and> hd b = CHR ''/'' then b
      else if a = [] \<or> last a = CHR ''/'' then a @ b
      else a @ ''/'' @ b)"

text \<open>\<^verbatim>\<open>os.makedirs(path, exist_ok=True)\<close> and \<^verbatim>\<open>open(path, 'wb')\<close> with the write.\<close>

definition makedirs :: "world \<Rightarrow> string \<Rightarrow> io \<Rightarrow> unit res" where
  "makedirs W path s =
     (if writable W path then Ret () (s\<lparr>made_dirs := made_dirs s @ [path]\<rparr>)
      else Raise OSError s)"

definition write_binary :: "world \<Rightarrow> string \<Rightarrow> string \<Rightarrow> io \<Rightarrow> unit res" where
  "write_binary W path content s =
     (if writable W path then Ret () (s\<lparr>saved := saved s @ [(path, content)]\<rparr>)
      else Raise OSError s)"

section \<open>The cache\<close>

record cache_obj =
  cache_dir :: string
  cache :: "string \<rightharpoonup> string"

definition getitem :: "cache_obj \<Rightarrow> string \<Rightarrow> string option" where
  "getitem self url = cache self url"

text \<open>The \<^verbatim>\<open>try\<close> block of \<^verbatim>\<open>__setitem__\<close>: open the file and dump the mapping.\<close>

definition json_dump :: "world \<Rightarrow> cache_obj \<Rightarrow> io \<Rightarrow> unit res" where
  "json_dump W self s =
     (if writable W (cache_dir self)
      then Ret () (s\<lparr>dumps := dumps s @ [(cache_dir self, cache self)]\<rparr>)
      else Raise OSError s)"

definition setitem :: "world \<Rightarrow> cache_obj \<Rightarrow> string \<Rightarrow> string \<Rightarrow> io \<Rightarrow> cache_obj res" where
  "setitem W self key val s =
     (let self1 = self\<lparr>cache := (cache self)(key \<mapsto> val)\<rparr> in
      case json_dump W self1 s of
        Ret u s1 \<Rightarrow> Ret self1 s1
      | Raise e s1 \<Rightarrow> Ret self1 (print CacheWriteError s1))"

section \<open>Parsing the landing page\<close>

text \<open>
  The pattern \<^verbatim>\<open>location.href\s*=\s*'(.*?)'\<close>. \<^verbatim>\<open>\s\<close> is Python's white space
  (below code point 256), \<^verbatim>\<open>.\<close> is any character but the newline. The pattern has
  one way to match at a position: white space is skipped greedily before a character
  that is not white space, and the lazy group ends at the first quote.
\<close>

definition re_space :: "char \<Rightarrow> bool" where
  "re_space c =
     (let n = (of_char c :: nat) in
      (9 \<le> n \<and> n \<le> 13) \<or> (28 \<le> n \<and> n \<le> 32) \<or> n = 133 \<or> n = 160)"

definition quote_char :: char where
  "quote_char = CHR 0x27"

definition newline_char :: char where
  "newline_char = CHR 0x0A"

fun strip_prefix :: "string \<Rightarrow> string \<Rightarrow> string option" where
  "strip_prefix [] s = Some s"
| "strip_prefix (p # ps) [] = None"
| "strip_prefix (p # ps) (c # cs) = (if p = c then strip_prefix ps cs else None)"

definition href_match_here :: "string \<Rightarrow> string option" where
  "href_match_here s =
     (case strip_prefix ''location'' s of
        None \<Rightarrow> None
      | Some r1 \<Rightarrow>
         (case r1 of
            [] \<Rightarrow> None
          | c # r2 \<Rightarrow>
             if c = newline_char then None
             else
               (case strip_prefix ''href'' r2 of
                  None \<Rightarrow> None
                | Some r3 \<Rightarrow>
                   (case strip_prefix ''='' (dropWhile re_space r3) of
                      None \<Rightarrow> None
                    | Some r4 \<Rightarrow>
                       (case strip_prefix [quote_char] (dropWhile re_space r4) of
                          None \<Rightarrow> None
                        | Some r5 \<Rightarrow>
                           (let inside = (\<lambda>c. c \<noteq> quote_char \<and> c \<noteq> newline_char) in
                            case strip_prefix [quote_char] (dropWhile inside r5) of
                              None \<Rightarrow> None
                            | Some r6 \<Rightarrow> Some (takeWhile inside r5)))))))"

text \<open>The group of the leftmost match: \<^verbatim>\<open>re.findall(...)[0]\<close> when there is one.\<close>

fun href_search :: "string \<Rightarrow> string option" where
  "href_search [] = href_match_here []"
| "href_search (c # cs) =
     (case href_match_here (c # cs) of
        Some g \<Rightarrow> Some g
      | None \<Rightarrow> href_search cs)"

text \<open>
  \<^verbatim>\<open>re.findall(pattern, onclick)[0]\<close>: a \<^verbatim>\<open>TypeError\<close> when \<^verbatim>\<open>onclick\<close> is
  \<^verbatim>\<open>None\<close>, an \<^verbatim>\<open>IndexError\<close> when nothing matches.
\<close>

definition re_findall_0 :: "string option \<Rightarrow> exn + string" where
  "re_findall_0 oc =
     (case oc of
        None \<Rightarrow> Inl TypeError
      | Some t \<Rightarrow> (case href_search t of None \<Rightarrow> Inl IndexError | Some g \<Rightarrow> Inr g))"

text \<open>
  The loop \<^verbatim>\<open>for a_unit in a: onclick = a_unit.get('onclick'); if onclick: break\<close>;
  the second argument is the value of \<^verbatim>\<open>onclick\<close> so far.
\<close>

definition truthy :: "string option \<Rightarrow> bool" where
  "truthy v = (case v of None \<Rightarrow> False | Some t \<Rightarrow> t \<noteq> [])"

fun onclick_loop :: "element list \<Rightarrow> string option \<Rightarrow> string option" where
  "onclick_loop [] oc = oc"
| "onclick_loop (a_unit # rest) oc =
     (let oc1 = attrs a_unit ''onclick'' in
      if truthy oc1 then oc1 else onclick_loop rest oc1)"

record link =
  title :: string
  onclick :: string

text \<open>\<^verbatim>\<open>lxml.html.fromstring\<close>, which rejects \<^verbatim>\<open>None\<close> with a \<^verbatim>\<open>TypeError\<close>.\<close>

definition fromstring :: "world \<Rightarrow> string option \<Rightarrow> exn + tree" where
  "fromstring W html = (case html of None \<Rightarrow> Inl TypeError | Some h \<Rightarrow> parse_html W h)"

text \<open>The \<^verbatim>\<open>try\<close> block of \<^verbatim>\<open>get_link_xpath\<close>, and the function with its handler.\<close>

definition get_link_try :: "world \<Rightarrow> string option \<Rightarrow> io \<Rightarrow> link option res" where
  "get_link_try W html s =
     (case fromstring W html of
        Inl e \<Rightarrow> Raise e s
      | Inr tr \<Rightarrow>
         (let a = xpath_buttons tr;
              a = (if length a = 0 then xpath_anchors tr else a)
          in
          if length a = 0 then Ret None (print NotIndexed s)
          else
            (case re_findall_0 (onclick_loop a None) of
               Inl e \<Rightarrow> Raise e s
             | Inr oc \<Rightarrow>
                (let t = xpath_citation_i tr;
                     t = (if length t = 0 then xpath_citation tr else t)
                 in
                 case t of
                   [] \<Rightarrow> Raise IndexError s
                 | t0 # ts \<Rightarrow> Ret (Some \<lparr>title = t0, onclick = oc\<rparr>) s))))"

definition get_link_xpath :: "world \<Rightarrow> string option \<Rightarrow> io \<Rightarrow> link option res" where
  "get_link_xpath W html s =
     (case get_link_try W html s of
        Ret r s1 \<Rightarrow> Ret r s1
      | Raise e s1 \<Rightarrow> Ret None (print (ParseError e) s1))"

section \<open>Downloading\<close>

text \<open>How an f-string renders a value.\<close>

fun py_format :: "pyval \<Rightarrow> string" where
  "py_format (PyStr t) = t"
| "py_format PyNone = ''None''"
| "py_format (PyNum t) = t"

definition doi_parser :: "pyval \<Rightarrow> string \<Rightarrow> bool \<Rightarrow> string" where
  "doi_parser doi start_url useSSL =
     (let protocol = (if useSSL then ''https'' else ''http'')
      in protocol @ ''://'' @ start_url @ ''/'' @ py_format doi)"

definition get_robot_parser ::
  "world \<Rightarrow> string \<Rightarrow> io \<Rightarrow> (string \<Rightarrow> string \<Rightarrow> bool) option res" where
  "get_robot_parser W robot_url s =
     (let s1 = s\<lparr>sent := sent s @ [robot_url]\<rparr> in
      case robots W robot_url of
        Some rp \<Rightarrow> Ret (Some rp) s1
      | None \<Rightarrow> Ret None (print RobotsError s1))"

text \<open>
  \<^verbatim>\<open>wait\<close> returns nothing and updates the dictionary it was given (a fresh one when
  it was given \<^verbatim>\<open>None\<close>); the model returns that dictionary.
\<close>

definition wait ::
  "world \<Rightarrow> string \<Rightarrow> real \<Rightarrow> (string \<rightharpoonup> real) option \<Rightarrow> io \<Rightarrow> (string \<rightharpoonup> real) res" where
  "wait W url delay doms s =
     (let doms1 = (case doms of None \<Rightarrow> Map.empty | Some d \<Rightarrow> d) in
      case urlparse W url of
        Inl e \<Rightarrow> Raise e s
      | Inr parts \<Rightarrow>
         (let domain = netloc parts;
              last_accessed = doms1 domain;
              s1 = (case last_accessed of
                      None \<Rightarrow> s
                    | Some t \<Rightarrow>
                       if delay > 0 then
                         (let sleep_secs = delay - (now s - t)
                          in if sleep_secs > 0 then sleep sleep_secs s else s)
                       else s)
          in Ret (doms1(domain \<mapsto> now s1)) s1))"

text \<open>
  \<^verbatim>\<open>download\<close> calls itself to retry. The first argument is the number of nested
  calls still allowed; beyond it the interpreter raises \<^verbatim>\<open>RecursionError\<close>, which
  no handler of the source catches.
\<close>

fun download :: "world \<Rightarrow> nat \<Rightarrow> string \<Rightarrow> int \<Rightarrow> io \<Rightarrow> string option res" where
  "download W 0 url num_retries s = Raise RecursionError s"
| "download W (Suc depth) url num_retries s =
     (let s1 = print (DownloadingPage url) s;
          (response, s2) = requests_get W url s1
      in
      case response of
        RequestException \<Rightarrow> Ret None (print DownloadError s2)
      | Response status_code text content \<Rightarrow>
         if status_code \<ge> 400 then
           if num_retries \<noteq> 0 \<and> 500 \<le> status_code \<and> status_code < 600
           then download W depth url (num_retries - 1) s2
           else Ret None (print (DownloadFailed status_code) s2)
         else Ret (Some text) s2)"

text \<open>
  The argument of \<^verbatim>\<open>get_valid_filename\<close> in \<^verbatim>\<open>download_pdf\<close>: \<^verbatim>\<open>re.sub\<close>
  raises a \<^verbatim>\<open>TypeError\<close> on anything but a string.
\<close>

definition filename_of :: "link \<Rightarrow> pyarg \<Rightarrow> exn + string" where
  "filename_of result doi =
     (case (if length (title result) \<ge> 5 then Val (PyStr (title result)) else doi) of
        Val (PyStr name) \<Rightarrow> Inr (get_valid_filename name default_name_len @ ''.pdf'')
      | _ \<Rightarrow> Inl TypeError)"

definition file_url :: "url_parts \<Rightarrow> string \<Rightarrow> string" where
  "file_url parts url =
     (let url1 = (if scheme parts = [] then ''https:'' @ url else url)
      in filter (\<lambda>c. c \<noteq> CHR 0x5C) url1)"

fun download_pdf ::
  "world \<Rightarrow> nat \<Rightarrow> link \<Rightarrow> string \<Rightarrow> int \<Rightarrow> pyarg \<Rightarrow> io \<Rightarrow> bool res" where
  "download_pdf W 0 result dir num_retries doi s = Raise RecursionError s"
| "download_pdf W (Suc depth) result dir num_retries doi s =
     (case urlparse W (onclick result) of
        Inl e \<Rightarrow> Raise e s
      | Inr parts \<Rightarrow>
         (let url = file_url parts (onclick result);
              s1 = print (DownloadingFile url) s;
              (response, s2) = requests_get W url s1
          in
          case response of
            RequestException \<Rightarrow> Ret False (print FileDownloadError s2)
          | Response status_code text content \<Rightarrow>
             if status_code \<ge> 400 then
               if num_retries \<noteq> 0 \<and> 500 \<le> status_code \<and> status_code < 600
               then download_pdf W depth result dir (num_retries - 1) doi s2
               else Ret False (print (FileDownloadFailed status_code) s2)
             else
               (case filename_of result doi of
                  Inl e \<Rightarrow> Raise e s2
                | Inr filename \<Rightarrow>
                   (let path = os_path_join dir filename in
                    case write_binary W path content s2 of
                      Raise e s3 \<Rightarrow> Raise e s3
                    | Ret u s3 \<Rightarrow> Ret True (print (FileSaved path) s3)))))"

section \<open>The crawler\<close>

text \<open>
  The keyword arguments of \<^verbatim>\<open>sci_hub_crawler\<close> (headers and proxies only travel
  to \<^verbatim>\<open>requests.get\<close>, whose answers are the world's), and the variables of its
  loop: the dictionary of \<^verbatim>\<open>wait\<close>, the counter and the cache object, if any.
\<close>

record config =
  cfg_dir :: string
  cfg_robot_url :: "string option"
  cfg_user_agent :: string
  cfg_num_retries :: int
  cfg_delay :: real
  cfg_start_url :: string
  cfg_useSSL :: bool
  cfg_nolimit :: bool

record locals =
  domains :: "string \<rightharpoonup> real"
  download_succ_cnt :: nat
  cache_arg :: "cache_obj option"

text \<open>Indexing a Python list: \<^verbatim>\<open>doi[k]\<close>.\<close>

definition py_index :: "'a list \<Rightarrow> nat \<Rightarrow> exn + 'a" where
  "py_index xs k = (if k < length xs then Inr (xs ! k) else Inl IndexError)"

text \<open>\<^verbatim>\<open>os.path.join(dir, quartile)\<close>, a \<^verbatim>\<open>TypeError\<close> unless \<^verbatim>\<open>quartile\<close> is a string.\<close>

definition join_quartile :: "string \<Rightarrow> pyval \<Rightarrow> exn + string" where
  "join_quartile dir quartile =
     (case quartile of PyStr q \<Rightarrow> Inr (os_path_join dir q) | _ \<Rightarrow> Inl TypeError)"

text \<open>
  The test \<^verbatim>\<open>cache and cache[url]\<close>: a cache object is given and the value it holds
  for the URL is a string that is not empty. The result is the value found.
\<close>

definition cache_hit :: "cache_obj option \<Rightarrow> string \<Rightarrow> string option" where
  "cache_hit c url =
     (case c of
        None \<Rightarrow> None
      | Some self \<Rightarrow> (if truthy (getitem self url) then getitem self url else None))"

text \<open>\<^verbatim>\<open>rp and rp.can_fetch(user_agent, url) or nolimit\<close>.\<close>

definition may_fetch ::
  "(string \<Rightarrow> string \<Rightarrow> bool) option \<Rightarrow> string \<Rightarrow> string \<Rightarrow> bool \<Rightarrow> bool" where
  "may_fetch rp user_agent url nolimit =
     ((case rp of None \<Rightarrow> False | Some can_fetch \<Rightarrow> can_fetch user_agent url) \<or> nolimit)"

text \<open>
  After a download that returned \<^verbatim>\<open>True\<close>: the cache entry, if there is a cache
  object, and the counter.
\<close>

definition record_success :: "world \<Rightarrow> string \<Rightarrow> link \<Rightarrow> locals \<Rightarrow> io \<Rightarrow> locals res" where
  "record_success W url result L s =
     (case cache_arg L of
        None \<Rightarrow> Ret (L\<lparr>download_succ_cnt := download_succ_cnt L + 1\<rparr>) s
      | Some self \<Rightarrow>
         (case setitem W self url (''https:'' @ onclick result) s of
            Raise e s1 \<Rightarrow> Raise e s1
          | Ret self1 s1 \<Rightarrow>
             Ret (L\<lparr>cache_arg := Some self1,
                    download_succ_cnt := download_succ_cnt L + 1\<rparr>) s1))"

text \<open>The branch taken when the URL may be fetched.\<close>

definition fetch_branch ::
  "world \<Rightarrow> config \<Rightarrow> pyval list \<Rightarrow> string \<Rightarrow> locals \<Rightarrow> io \<Rightarrow> locals res" where
  "fetch_branch W cfg doi url L s =
     (case wait W url (cfg_delay cfg) (Some (domains L)) s of
        Raise e s1 \<Rightarrow> Raise e s1
      | Ret doms s1 \<Rightarrow>
         (let L1 = L\<lparr>domains := doms\<rparr> in
          case download W (recursion_limit W) url (cfg_num_retries cfg) s1 of
            Raise e s2 \<Rightarrow> Raise e s2
          | Ret html s2 \<Rightarrow>
             (case get_link_xpath W html s2 of
                Raise e s3 \<Rightarrow> Raise e s3
              | Ret None s3 \<Rightarrow> Ret L1 s3
              | Ret (Some result) s3 \<Rightarrow>
                 (case py_index doi 2 of
                    Inl e \<Rightarrow> Raise e s3
                  | Inr quartile \<Rightarrow>
                     (case join_quartile (cfg_dir cfg) quartile of
                        Inl e \<Rightarrow> Raise e s3
                      | Inr target_dir \<Rightarrow>
                         (case download_pdf W (recursion_limit W) result target_dir
                                 (cfg_num_retries cfg) (Tup doi) s3 of
                            Raise e s4 \<Rightarrow> Raise e s4
                          | Ret ok s4 \<Rightarrow>
                             if ok then record_success W url result L1 s4
                             else Ret L1 s4))))))"

text \<open>The body of the loop \<^verbatim>\<open>for doi in doi_list\<close>.\<close>

definition crawl_one ::
  "world \<Rightarrow> config \<Rightarrow> (string \<Rightarrow> string \<Rightarrow> bool) option \<Rightarrow> pyval list \<Rightarrow> locals \<Rightarrow> io
     \<Rightarrow> locals res" where
  "crawl_one W cfg rp doi L s =
     (case py_index doi 0 of
        Inl e \<Rightarrow> Raise e s
      | Inr doi0 \<Rightarrow>
         (let url = doi_parser doi0 (cfg_start_url cfg) (cfg_useSSL cfg) in
          case cache_hit (cache_arg L) url of
            Some found \<Rightarrow>
              Ret (L\<lparr>download_succ_cnt := download_succ_cnt L + 1\<rparr>)
                  (print (AlreadyDownloaded found) s)
          | None \<Rightarrow>
              if may_fetch rp (cfg_user_agent cfg) url (cfg_nolimit cfg)
              then fetch_branch W cfg doi url L s
              else Ret L (print (Blocked url) s)))"

fun crawl_loop ::
  "world \<Rightarrow> config \<Rightarrow> (string \<Rightarrow> string \<Rightarrow> bool) option \<Rightarrow> pyval list list \<Rightarrow> locals \<Rightarrow> io
     \<Rightarrow> locals res" where
  "crawl_loop W cfg rp [] L s = Ret L s"
| "crawl_loop W cfg rp (doi # rest) L s =
     (case crawl_one W cfg rp doi L s of
        Raise e s1 \<Rightarrow> Raise e s1
      | Ret L1 s1 \<Rightarrow> crawl_loop W cfg rp rest L1 s1)"

text \<open>The directories made before the loop: \<^verbatim>\<open>dir\<close> and its four quartiles.\<close>

fun makedirs_all :: "world \<Rightarrow> string list \<Rightarrow> io \<Rightarrow> unit res" where
  "makedirs_all W [] s = Ret () s"
| "makedirs_all W (p # ps) s =
     (case makedirs W p s of
        Raise e s1 \<Rightarrow> Raise e s1
      | Ret u s1 \<Rightarrow> makedirs_all W ps s1)"

definition robots_url_of :: "config \<Rightarrow> string" where
  "robots_url_of cfg =
     (let protocol = (if cfg_useSSL cfg then ''https'' else ''http'');
          default_url = protocol @ ''://'' @ cfg_start_url cfg @ ''/robots.txt''
      in case cfg_robot_url cfg of
           None \<Rightarrow> default_url
         | Some robot_url \<Rightarrow> if robot_url = [] then default_url else robot_url)"

text \<open>
  \<^verbatim>\<open>sci_hub_crawler\<close> returns nothing; the model returns the variables of the loop
  as they are at the end. The closing message is printed twice, as in the source.
\<close>

definition sci_hub_crawler ::
  "world \<Rightarrow> pyval list list \<Rightarrow> config \<Rightarrow> cache_obj option \<Rightarrow> io \<Rightarrow> locals res" where
  "sci_hub_crawler W doi_list cfg cache0 s =
     (case get_robot_parser W (robots_url_of cfg) s of
        Raise e s1 \<Rightarrow> Raise e s1
      | Ret rp s1 \<Rightarrow>
         (let L0 = \<lparr>domains = Map.empty, download_succ_cnt = 0, cache_arg = cache0\<rparr> in
          case makedirs_all W
                 (cfg_dir cfg # map (os_path_join (cfg_dir cfg)) [''Q1'', ''Q2'', ''Q3'', ''Q4''])
                 s1 of
            Raise e s2 \<Rightarrow> Raise e s2
          | Ret u s2 \<Rightarrow>
             (case crawl_loop W cfg rp doi_list L0 (print StartLoop s2) of
                Raise e s3 \<Rightarrow> Raise e s3
              | Ret L s3 \<Rightarrow>
                 (let done = Finished (length doi_list) (download_succ_cnt L)
                  in Ret L (print done (print done s3))))))"

section \<open>Notions used to state the properties\<close>

text \<open>The state a call leaves behind, whether it returned or raised.\<close>

fun res_io :: "'a res \<Rightarrow> io" where
  "res_io (Ret v s) = s"
| "res_io (Raise e s) = s"

text \<open>The state after a message and one request for a URL.\<close>

definition asked :: "msg \<Rightarrow> string \<Rightarrow> io \<Rightarrow> io" where
  "asked m url s = (print m s)\<lparr>sent := sent s @ [url]\<rparr>"

text \<open>A response with a status in [500, 600).\<close>

definition server_error :: "response \<Rightarrow> bool" where
  "server_error r =
     (case r of Response c t b \<Rightarrow> 500 \<le> c \<and> c < 600 | RequestException \<Rightarrow> False)"

text \<open>The landing page of an element of the DOI list, and what the loop prints for it
  when no policy is loaded and the override is off.\<close>

definition landing :: "config \<Rightarrow> pyval list \<Rightarrow> string" where
  "landing cfg doi =
     (case doi of
        [] \<Rightarrow> []
      | doi0 # rest \<Rightarrow> doi_parser doi0 (cfg_start_url cfg) (cfg_useSSL cfg))"

definition skip_report :: "config \<Rightarrow> cache_obj option \<Rightarrow> pyval list \<Rightarrow> msg" where
  "skip_report cfg c doi =
     (case cache_hit c (landing cfg doi) of
        Some found \<Rightarrow> AlreadyDownloaded found
      | None \<Rightarrow> Blocked (landing cfg doi))"

section \<open>A concrete scenario\<close>

text \<open>
  A gateway whose landing page for \<^verbatim>\<open>10.1/abc\<close> has one button with
  \<^verbatim>\<open>onclick="location.href='//mirror/file.pdf'"\<close> and the given citation text, a
  robots policy that allows everything, and the keyword defaults of
  \<^verbatim>\<open>sci_hub_crawler\<close>.
\<close>

definition io0 :: io where
  "io0 = \<lparr>now = 0, sent = [], saved = [], dumps = [], made_dirs = [], printed = []\<rparr>"

definition landing_url :: string where
  "landing_url = ''https://www.sci-hub.wf/10.1/abc''"

definition demo_onclick :: string where
  "demo_onclick = ''location.href='' @ [quote_char] @ ''//mirror/file.pdf'' @ [quote_char]"

definition demo_tree :: "string \<Rightarrow> tree" where
  "demo_tree citation =
     \<lparr>xpath_buttons = [\<lparr>attrs = [''onclick'' \<mapsto> demo_onclick]\<rparr>],
      xpath_anchors = [],
      xpath_citation_i = [],
      xpath_citation = [citation]\<rparr>"

definition demo_world :: "string \<Rightarrow> world" where
  "demo_world citation =
     \<lparr>web = (\<lambda>url k.
               if url = landing_url then Response 200 ''<html>'' []
               else if url = ''https://mirror/file.pdf'' then Response 200 [] ''%PDF''
               else RequestException),
      robots = (\<lambda>url. Some (\<lambda>agent u. True)),
      writable = (\<lambda>path. True),
      urlparse = (\<lambda>url.
               if url = landing_url
               then Inr \<lparr>scheme = ''https'', netloc = ''www.sci-hub.wf''\<rparr>
               else if url = ''//mirror/file.pdf''
               then Inr \<lparr>scheme = [], netloc = ''mirror''\<rparr>
               else Inl ValueError),
      parse_html = (\<lambda>h. if h = ''<html>'' then Inr (demo_tree citation) else Inl ParserError),
      recursion_limit = 1000\<rparr>"

definition demo_cfg :: config where
  "demo_cfg =
     \<lparr>cfg_dir = ''papers'', cfg_robot_url = None, cfg_user_agent = ''sheng'',
      cfg_num_retries = 2, cfg_delay = 3, cfg_start_url = ''www.sci-hub.wf'',
      cfg_useSSL = True, cfg_nolimit = False\<rparr>"

definition empty_cache :: cache_obj where
  "empty_cache = \<lparr>cache_dir = ''cache.txt'', cache = Map.empty\<rparr>"

text \<open>A server that answers 503 to the first request and 200 to the next ones.\<close>

definition flaky_world :: world where
  "flaky_world =
     (demo_world [])\<lparr>web := (\<lambda>url k. if k = 0 then Response 503 [] []
                                      else Response 200 ''body'' ''body'')\<rparr>"

definition down_world :: world where
  "down_world = (demo_world [])\<lparr>web := (\<lambda>url k. Response 503 [] [])\<rparr>"

text \<open>
  The scenario of the end-to-end claim, for any world: the robots file is read and allows
  the landing page to the default agent, every path can be written, the gateway always
  answers the landing URL with a page whose only button carries the link to
  \<^verbatim>\<open>//mirror/file.pdf\<close> and whose citation is the given text, and the mirror
  always answers with the given file content.
\<close>

definition scenario :: "world \<Rightarrow> string \<Rightarrow> string \<Rightarrow> bool" where
  "scenario W citation pdf \<longleftrightarrow>
     (\<exists>can_fetch. robots W ''https://www.sci-hub.wf/robots.txt'' = Some can_fetch
        \<and> can_fetch ''sheng'' landing_url)
     \<and> 0 < recursion_limit W
     \<and> (\<forall>path. writable W path)
     \<and> (\<exists>parts. urlparse W landing_url = Inr parts)
     \<and> (\<exists>page body tr. (\<forall>k. web W landing_url k = Response 200 page body)
          \<and> parse_html W page = Inr tr
          \<and> xpath_buttons tr = [\<lparr>attrs = [''onclick'' \<mapsto> demo_onclick]\<rparr>]
          \<and> xpath_citation_i tr = [] \<and> xpath_citation tr = [citation])
     \<and> (\<exists>parts2. urlparse W ''//mirror/file.pdf'' = Inr parts2 \<and> scheme parts2 = [])
     \<and> (\<exists>t2. \<forall>k. web W ''https://mirror/file.pdf'' k = Response 200 t2 pdf)"

text \<open>The state in which the loop starts: the robots file asked for, the directories
  made, the opening message printed.\<close>

definition loop_start :: "world \<Rightarrow> config \<Rightarrow> io \<Rightarrow> io" where
  "loop_start W cfg s =
     (let s1 = res_io (get_robot_parser W (robots_url_of cfg) s)
      in print StartLoop
           (s1\<lparr>made_dirs := made_dirs s1 @ (cfg_dir cfg #
              map (os_path_join (cfg_dir cfg)) [''Q1'', ''Q2'', ''Q3'', ''Q4''])\<rparr>))"

text \<open>A cache that holds the landing URL as a key, with an empty string as its value,
  and an element of the DOI list as \<^verbatim>\<open>get_dois_and_impact_factors\<close> builds it.\<close>

definition stale_cache :: cache_obj where
  "stale_cache = \<lparr>cache_dir = ''cache.txt'', cache = [landing_url \<mapsto> []]\<rparr>"

definition demo_item :: "pyval list" where
  "demo_item = [PyStr ''10.1/abc'', PyNum ''3.2'', PyStr ''Q2'']"

section \<open>Properties of the file name\<close>

lemma allowed_underscore: "allowed_char (CHR ''_'')"
  by (simp add: allowed_char_def)

lemma re_sub_underscore_allowed: "c \<in> set (re_sub_underscore s) \<Longrightarrow> allowed_char c"
  by (auto simp: re_sub_underscore_def allowed_underscore)

lemma re_sub_underscore_fix:
  "(\<And>c. c \<in> set s \<Longrightarrow> allowed_char c) \<Longrightarrow> re_sub_underscore s = s"
  by (induction s) (simp_all add: re_sub_underscore_def)

lemma get_valid_filename_default:
  "get_valid_filename s default_name_len = take 128 (re_sub_underscore s)"
  by (simp add: get_valid_filename_def py_slice_to_def default_name_len_def)

lemma get_valid_filename_allowed:
  "c \<in> set (get_valid_filename s default_name_len) \<Longrightarrow> allowed_char c"
  by (auto simp: get_valid_filename_default dest: in_set_takeD re_sub_underscore_allowed)

lemma get_valid_filename_length: "length (get_valid_filename s default_name_len) \<le> 128"
  by (simp add: get_valid_filename_default)

lemma get_valid_filename_idem:
  "get_valid_filename (get_valid_filename s default_name_len) default_name_len
     = get_valid_filename s default_name_len"
proof -
  define t where "t = get_valid_filename s default_name_len"
  have "re_sub_underscore t = t"
    unfolding t_def by (rule re_sub_underscore_fix) (rule get_valid_filename_allowed)
  moreover have "take 128 t = t"
    unfolding t_def using get_valid_filename_length [of s] by simp
  ultimately have "get_valid_filename t default_name_len = t"
    by (simp add: get_valid_filename_default)
  then show ?thesis
    by (simp add: t_def)
qed

text \<open>
  Claim C3. Sanitising is idempotent; the result has at most 128 characters; it is the
  input, cut to 128 characters, with every character outside
  \<^verbatim>\<open>[0-9A-Za-z-,._;]\<close> replaced by an underscore, so that every character of
  the result is in that set or is the underscore (which the set contains).
\<close>

theorem get_valid_filename_spec:
  "get_valid_filename (get_valid_filename s default_name_len) default_name_len
     = get_valid_filename s default_name_len
   \<and> length (get_valid_filename s default_name_len) \<le> 128
   \<and> (\<forall>c \<in> set (get_valid_filename s default_name_len). allowed_char c)
   \<and> get_valid_filename s default_name_len
       = take 128 (map (\<lambda>c. if allowed_char c then c else CHR ''_'') s)"
proof (intro conjI ballI)
  show "get_valid_filename (get_valid_filename s default_name_len) default_name_len
     = get_valid_filename s default_name_len"
    by (rule get_valid_filename_idem)
  show "length (get_valid_filename s default_name_len) \<le> 128"
    by (rule get_valid_filename_length)
  show "allowed_char c" if "c \<in> set (get_valid_filename s default_name_len)" for c
    using that by (rule get_valid_filename_allowed)
  show "get_valid_filename s default_name_len
       = take 128 (map (\<lambda>c. if allowed_char c then c else CHR ''_'') s)"
    by (simp add: get_valid_filename_def py_slice_to_def default_name_len_def
        re_sub_underscore_def)
qed

theorem get_valid_filename_spec_witness:
  "get_valid_filename ''a b/c'' default_name_len = ''a_b_c''
   \<and> get_valid_filename ''a_b_c'' default_name_len = ''a_b_c''
   \<and> allowed_char (CHR ''_'') \<and> \<not> allowed_char (CHR ''/'')"
  using get_valid_filename_spec [of "''a b/c''"]
  by (simp add: get_valid_filename_def py_slice_to_def default_name_len_def
      re_sub_underscore_def allowed_char_def)

section \<open>Properties of the cache\<close>

lemma setitem_eq:
  "setitem W self key val s =
     Ret (self\<lparr>cache := (cache self)(key \<mapsto> val)\<rparr>)
         (if writable W (cache_dir self)
          then s\<lparr>dumps := dumps s @ [(cache_dir self, (cache self)(key \<mapsto> val))]\<rparr>
          else print CacheWriteError s)"
  by (simp add: setitem_def json_dump_def Let_def)

text \<open>
  Claim C9. \<^verbatim>\<open>__setitem__\<close> returns (it never raises) with the key bound to the
  value in memory; when the file can be written, the whole updated mapping has been
  dumped to it, and when it cannot, the failure is printed and the mapping in memory is
  the updated one all the same. A lookup of the key then gives the value.
\<close>

theorem setitem_spec:
  "setitem W self key val s =
     Ret (self\<lparr>cache := (cache self)(key \<mapsto> val)\<rparr>)
         (if writable W (cache_dir self)
          then s\<lparr>dumps := dumps s @ [(cache_dir self, (cache self)(key \<mapsto> val))]\<rparr>
          else print CacheWriteError s)
   \<and> getitem (self\<lparr>cache := (cache self)(key \<mapsto> val)\<rparr>) key = Some val"
  by (simp add: setitem_eq getitem_def)

theorem setitem_spec_witness:
  "setitem ((demo_world [])\<lparr>writable := (\<lambda>p. False)\<rparr>) empty_cache ''k'' ''v'' io0
     = Ret (empty_cache\<lparr>cache := [''k'' \<mapsto> ''v'']\<rparr>) (print CacheWriteError io0)
   \<and> getitem (empty_cache\<lparr>cache := [''k'' \<mapsto> ''v'']\<rparr>) ''k'' = Some ''v''"
  using setitem_spec [of "(demo_world [])\<lparr>writable := (\<lambda>p. False)\<rparr>" empty_cache "''k''" "''v''" io0]
  by (simp add: empty_cache_def)

section \<open>Properties of the link extraction\<close>

lemma get_link_xpath_returns: "\<exists>r s1. get_link_xpath W html s = Ret r s1"
  by (cases "get_link_try W html s") (simp_all add: get_link_xpath_def)

lemma get_link_try_io: "get_link_try W html s = Raise e s1 \<Longrightarrow> s1 = s"
  by (auto simp: get_link_try_def Let_def split: sum.splits if_splits list.splits)

lemma get_link_not_indexed:
  "fromstring W html = Inr tr \<Longrightarrow> xpath_buttons tr = [] \<Longrightarrow> xpath_anchors tr = [] \<Longrightarrow>
   get_link_xpath W html s = Ret None (print NotIndexed s)"
  by (simp add: get_link_xpath_def get_link_try_def)

lemma get_link_parse_error:
  "fromstring W html = Inl e \<Longrightarrow> get_link_xpath W html s = Ret None (print (ParseError e) s)"
  by (simp add: get_link_xpath_def get_link_try_def)

lemma get_link_handler:
  "get_link_try W html s = Raise e s1 \<Longrightarrow>
   get_link_xpath W html s = Ret None (print (ParseError e) s)"
  using get_link_try_io [of W html s e s1] by (simp add: get_link_xpath_def)

lemma get_link_xpath_found:
  assumes "parse_html W page = Inr tr"
    and "xpath_buttons tr = \<lparr>attrs = atts\<rparr> # others"
    and "atts ''onclick'' = Some oc" and "oc \<noteq> []"
    and "href_search oc = Some target"
    and "xpath_citation_i tr = []" and "xpath_citation tr = t0 # ts"
  shows "get_link_xpath W (Some page) s = Ret (Some \<lparr>title = t0, onclick = target\<rparr>) s"
  using assms
  by (simp add: get_link_xpath_def get_link_try_def fromstring_def re_findall_0_def truthy_def)

lemma href_search_demo: "href_search demo_onclick = Some ''//mirror/file.pdf''"
  by (simp add: demo_onclick_def href_match_here_def quote_char_def newline_char_def
      re_space_def)

text \<open>
  Claim C7. \<^verbatim>\<open>get_link_xpath\<close> returns on every input, it never raises. When the
  page parses and neither the button query nor the anchor query finds an element, it
  returns \<^verbatim>\<open>None\<close> and prints only the "not indexed" message; when the parser
  rejects the input, or anything else in the \<^verbatim>\<open>try\<close> block raises, it returns
  \<^verbatim>\<open>None\<close> and prints the error.
\<close>

theorem get_link_xpath_never_raises:
  "(\<exists>r s1. get_link_xpath W html s = Ret r s1)
   \<and> (\<forall>tr. fromstring W html = Inr tr \<and> xpath_buttons tr = [] \<and> xpath_anchors tr = []
          \<longrightarrow> get_link_xpath W html s = Ret None (print NotIndexed s))
   \<and> (\<forall>e. fromstring W html = Inl e
          \<longrightarrow> get_link_xpath W html s = Ret None (print (ParseError e) s))
   \<and> (\<forall>e s1. get_link_try W html s = Raise e s1
          \<longrightarrow> get_link_xpath W html s = Ret None (print (ParseError e) s))"
  using get_link_xpath_returns [of W html s]
  by (auto simp: get_link_not_indexed get_link_parse_error get_link_handler)

theorem get_link_xpath_never_raises_witness:
  "get_link_xpath ((demo_world [])\<lparr>parse_html := (\<lambda>h. Inr \<lparr>xpath_buttons = [],
       xpath_anchors = [], xpath_citation_i = [], xpath_citation = []\<rparr>)\<rparr>) (Some ''<p>'') io0
     = Ret None (print NotIndexed io0)
   \<and> get_link_xpath (demo_world []) (Some ''<p>'') io0
     = Ret None (print (ParseError ParserError) io0)
   \<and> get_link_xpath (demo_world []) None io0 = Ret None (print (ParseError TypeError) io0)"
proof -
  let ?W = "(demo_world [])\<lparr>parse_html := (\<lambda>h. Inr \<lparr>xpath_buttons = [],
       xpath_anchors = [], xpath_citation_i = [], xpath_citation = []\<rparr>)\<rparr>"
  have "fromstring ?W (Some ''<p>'') = Inr \<lparr>xpath_buttons = [],
       xpath_anchors = [], xpath_citation_i = [], xpath_citation = []\<rparr>"
    by (simp add: fromstring_def)
  moreover have "fromstring (demo_world []) (Some ''<p>'') = Inl ParserError"
    by (simp add: fromstring_def demo_world_def)
  moreover have "fromstring (demo_world []) None = Inl TypeError"
    by (simp add: fromstring_def)
  ultimately show ?thesis
    using get_link_xpath_never_raises [of ?W "Some ''<p>''" io0]
      get_link_xpath_never_raises [of "demo_world []" "Some ''<p>''" io0]
      get_link_xpath_never_raises [of "demo_world []" None io0]
    by simp
qed

section \<open>Properties of the rate limiter\<close>

lemma wait_eq:
  assumes "urlparse W url = Inr parts"
  shows "wait W url delay (Some d) s =
     (let s1 = (case d (netloc parts) of
                  None \<Rightarrow> s
                | Some t \<Rightarrow> if 0 < delay \<and> now s < t + delay then s\<lparr>now := t + delay\<rparr> else s)
      in Ret (d(netloc parts \<mapsto> now s1)) s1)"
  using assms by (auto simp: wait_def Let_def sleep_def split: option.splits)

lemma wait_first:
  assumes "urlparse W url = Inr parts" and "d (netloc parts) = None"
  shows "wait W url delay (Some d) s = Ret (d(netloc parts \<mapsto> now s)) s"
  using assms by (simp add: wait_def)

lemma wait_no_dictionary:
  assumes "urlparse W url = Inr parts"
  shows "wait W url delay None s = Ret [netloc parts \<mapsto> now s] s"
  using assms by (simp add: wait_def)

text \<open>
  Claim C8. For a URL that \<^verbatim>\<open>urlparse\<close> accepts, with host \<open>netloc parts\<close>:
  \<^verbatim>\<open>wait\<close> returns, having changed nothing but the clock and the host's entry, which
  it sets to the time at which it returns. With no entry for the host (also when no
  dictionary is passed) the state is untouched: it does not sleep. With an entry \<open>t\<close> and
  a positive delay it returns at the later of the time of the call and \<open>t + delay\<close>, so
  never before \<open>t + delay\<close>. The time of return depends on the host's own entry only:
  any dictionary with the same entry for this host gives the same state. Time is
  idealised: reals for floats, \<^verbatim>\<open>time.sleep\<close> taking exactly the time asked for, and
  nothing else taking time.
\<close>

theorem wait_spec:
  assumes "urlparse W url = Inr parts"
  shows "\<exists>s1. wait W url delay (Some d) s = Ret (d(netloc parts \<mapsto> now s1)) s1
           \<and> s1 = s\<lparr>now := now s1\<rparr>
           \<and> (d (netloc parts) = None \<longrightarrow> s1 = s)
           \<and> (\<forall>t. d (netloc parts) = Some t \<and> 0 < delay
                  \<longrightarrow> now s1 = max (now s) (t + delay) \<and> t + delay \<le> now s1)
           \<and> (\<forall>d2. d2 (netloc parts) = d (netloc parts)
                  \<longrightarrow> wait W url delay (Some d2) s = Ret (d2(netloc parts \<mapsto> now s1)) s1)
           \<and> wait W url delay None s = Ret [netloc parts \<mapsto> now s] s"
proof (cases "d (netloc parts)")
  case None
  then show ?thesis
    using assms by (auto simp: wait_eq wait_no_dictionary intro!: exI [of _ s])
next
  case (Some t)
  show ?thesis
  proof (cases "0 < delay \<and> now s < t + delay")
    case True
    with Some show ?thesis
      using assms by (auto simp: wait_eq wait_no_dictionary intro!: exI [of _ "s\<lparr>now := t + delay\<rparr>"])
  next
    case False
    with Some show ?thesis
      using assms by (auto simp: wait_eq wait_no_dictionary intro!: exI [of _ s])
  qed
qed

theorem wait_spec_witness:
  "\<exists>s1. wait (demo_world []) landing_url 3 (Some [''www.sci-hub.wf'' \<mapsto> 10]) (io0\<lparr>now := 11\<rparr>)
          = Ret [''www.sci-hub.wf'' \<mapsto> 13] s1
        \<and> now s1 = 13"
proof -
  have up: "urlparse (demo_world []) landing_url
              = Inr \<lparr>scheme = ''https'', netloc = ''www.sci-hub.wf''\<rparr>"
    by (simp add: demo_world_def)
  from wait_spec [OF up, of 3 "[''www.sci-hub.wf'' \<mapsto> 10]" "io0\<lparr>now := 11\<rparr>"]
  show ?thesis by auto
qed

section \<open>Properties of the two downloads\<close>

lemma sent_print [simp]: "sent (print m s) = sent s"
  by (simp add: print_def)

lemma sent_asked [simp]: "sent (asked m url s) = sent s @ [url]"
  by (simp add: asked_def)

lemma saved_print [simp]: "saved (print m s) = saved s"
  by (simp add: print_def)

lemma saved_asked [simp]: "saved (asked m url s) = saved s"
  by (simp add: asked_def)

lemma download_Suc:
  "download W (Suc d) url n s =
     (case web W url (length (sent s)) of
        RequestException \<Rightarrow> Ret None (print DownloadError (asked (DownloadingPage url) url s))
      | Response c t b \<Rightarrow>
          if c < 400 then Ret (Some t) (asked (DownloadingPage url) url s)
          else if n \<noteq> 0 \<and> 500 \<le> c \<and> c < 600
          then download W d url (n - 1) (asked (DownloadingPage url) url s)
          else Ret None (print (DownloadFailed c) (asked (DownloadingPage url) url s)))"
  by (simp add: requests_get_def asked_def Let_def split: response.splits)

declare download.simps(2) [simp del]

lemma download_pdf_Suc:
  "download_pdf W (Suc d) result dir n doi s =
     (case urlparse W (onclick result) of
        Inl e \<Rightarrow> Raise e s
      | Inr parts \<Rightarrow>
         (let url = file_url parts (onclick result);
              s1 = asked (DownloadingFile url) url s
          in
          case web W url (length (sent s)) of
            RequestException \<Rightarrow> Ret False (print FileDownloadError s1)
          | Response c t b \<Rightarrow>
              if c < 400 then
                (case filename_of result doi of
                   Inl e \<Rightarrow> Raise e s1
                 | Inr filename \<Rightarrow>
                    if writable W (os_path_join dir filename)
                    then Ret True (print (FileSaved (os_path_join dir filename))
                           (s1\<lparr>saved := saved s1 @ [(os_path_join dir filename, b)]\<rparr>))
                    else Raise OSError s1)
              else if n \<noteq> 0 \<and> 500 \<le> c \<and> c < 600
              then download_pdf W d result dir (n - 1) doi s1
              else Ret False (print (FileDownloadFailed c) s1)))"
  by (simp add: requests_get_def asked_def write_binary_def Let_def
      split: response.splits sum.splits)

declare download_pdf.simps(2) [simp del]

text \<open>A retry consumes one request and one unit of the budget.\<close>

lemma replicate_snoc_step: "(xs @ [x]) @ replicate k x = xs @ replicate (Suc k) x"
  by (simp add: replicate_app_Cons_same)

lemma download_bound:
  "0 \<le> n \<Longrightarrow> nat n < depth \<Longrightarrow>
   \<exists>r s1 k. download W depth url n s = Ret r s1 \<and> 1 \<le> k \<and> k \<le> nat n + 1
      \<and> sent s1 = sent s @ replicate k url"
proof (induction depth arbitrary: n s)
  case 0
  then show ?case by simp
next
  case (Suc depth)
  let ?s1 = "asked (DownloadingPage url) url s"
  have one: "\<exists>r s1 k. download W (Suc depth) url n s = Ret r s1 \<and> 1 \<le> k \<and> k \<le> nat n + 1
      \<and> sent s1 = sent s @ replicate k url"
    if "download W (Suc depth) url n s = Ret r s1" "sent s1 = sent s @ [url]" for r s1
  proof (intro exI conjI)
    show "download W (Suc depth) url n s = Ret r s1" by (rule that)
    show "sent s1 = sent s @ replicate 1 url" using that by simp
  qed simp_all
  show ?case
  proof (cases "web W url (length (sent s))")
    case RequestException
    then have "download W (Suc depth) url n s = Ret None (print DownloadError ?s1)"
      by (simp add: download_Suc)
    then show ?thesis by (rule one) simp
  next
    case (Response c t b)
    show ?thesis
    proof (cases "400 \<le> c \<and> n \<noteq> 0 \<and> 500 \<le> c \<and> c < 600")
      case True
      with Response have step: "download W (Suc depth) url n s = download W depth url (n - 1) ?s1"
        by (simp add: download_Suc)
      from True Suc.prems have "0 \<le> n - 1" "nat (n - 1) < depth" by auto
      from Suc.IH [OF this, of ?s1] obtain r s1 k where
        k: "download W depth url (n - 1) ?s1 = Ret r s1" "1 \<le> k" "k \<le> nat (n - 1) + 1"
           "sent s1 = sent ?s1 @ replicate k url"
        by blast
      show ?thesis
      proof (intro exI conjI)
        show "download W (Suc depth) url n s = Ret r s1" using step k(1) by simp
        show "sent s1 = sent s @ replicate (Suc k) url"
          using k(4) by (simp add: replicate_snoc_step)
        show "Suc k \<le> nat n + 1" using k(3) True Suc.prems by auto
      qed simp
    next
      case False
      with Response have "download W (Suc depth) url n s = Ret (Some t) ?s1
        \<or> download W (Suc depth) url n s = Ret None (print (DownloadFailed c) ?s1)"
        by (auto simp: download_Suc)
      then show ?thesis
      proof
        assume "download W (Suc depth) url n s = Ret (Some t) ?s1"
        then show ?thesis by (rule one) simp
      next
        assume "download W (Suc depth) url n s = Ret None (print (DownloadFailed c) ?s1)"
        then show ?thesis by (rule one) simp
      qed
    qed
  qed
qed

lemma download_all_5xx:
  "0 \<le> n \<Longrightarrow> nat n < depth \<Longrightarrow>
   (\<And>k. length (sent s) \<le> k \<Longrightarrow> server_error (web W url k)) \<Longrightarrow>
   \<exists>s1. download W depth url n s = Ret None s1 \<and> sent s1 = sent s @ replicate (nat n + 1) url"
proof (induction depth arbitrary: n s)
  case 0
  then show ?case by simp
next
  case (Suc depth)
  let ?s1 = "asked (DownloadingPage url) url s"
  from Suc.prems(3) [of "length (sent s)"] obtain c t b where
    r: "web W url (length (sent s)) = Response c t b" "500 \<le> c" "c < 600"
    by (auto simp: server_error_def split: response.splits)
  show ?case
  proof (cases "n = 0")
    case True
    with r show ?thesis by (simp add: download_Suc)
  next
    case False
    with r have step: "download W (Suc depth) url n s = download W depth url (n - 1) ?s1"
      by (simp add: download_Suc)
    from False Suc.prems have "0 \<le> n - 1" "nat (n - 1) < depth" by auto
    moreover have "\<And>k. length (sent ?s1) \<le> k \<Longrightarrow> server_error (web W url k)"
      using Suc.prems(3) by simp
    ultimately obtain s1 where
      k: "download W depth url (n - 1) ?s1 = Ret None s1"
         "sent s1 = sent ?s1 @ replicate (nat (n - 1) + 1) url"
      using Suc.IH [of "n - 1" ?s1] by blast
    have "Suc (nat (n - 1)) = nat n" using False Suc.prems by auto
    then have "sent s1 = sent s @ replicate (nat n + 1) url"
      using k(2) by (simp add: replicate_snoc_step)
    then show ?thesis using step k(1) by simp
  qed
qed

lemma download_pdf_bound:
  "0 \<le> n \<Longrightarrow> nat n < depth \<Longrightarrow> urlparse W (onclick result) = Inr parts \<Longrightarrow>
   \<exists>k. 1 \<le> k \<and> k \<le> nat n + 1
      \<and> sent (res_io (download_pdf W depth result dir n doi s))
          = sent s @ replicate k (file_url parts (onclick result))"
proof (induction depth arbitrary: n s)
  case 0
  then show ?case by simp
next
  case (Suc depth)
  let ?url = "file_url parts (onclick result)"
  let ?s1 = "asked (DownloadingFile ?url) ?url s"
  let ?r = "download_pdf W (Suc depth) result dir n doi s"
  have one: "\<exists>k. 1 \<le> k \<and> k \<le> nat n + 1 \<and> sent (res_io ?r) = sent s @ replicate k ?url"
    if "sent (res_io ?r) = sent s @ [?url]"
  proof (intro exI conjI)
    show "sent (res_io ?r) = sent s @ replicate 1 ?url" using that by simp
  qed simp_all
  show ?case
  proof (cases "web W ?url (length (sent s))")
    case RequestException
    with Suc.prems(3) have "?r = Ret False (print FileDownloadError ?s1)"
      by (simp add: download_pdf_Suc Let_def)
    then show ?thesis by (intro one) simp
  next
    case (Response c t b)
    show ?thesis
    proof (cases "400 \<le> c \<and> n \<noteq> 0 \<and> 500 \<le> c \<and> c < 600")
      case True
      with Response Suc.prems(3)
      have step: "?r = download_pdf W depth result dir (n - 1) doi ?s1"
        by (simp add: download_pdf_Suc Let_def)
      from True Suc.prems have "0 \<le> n - 1" "nat (n - 1) < depth" by auto
      from Suc.IH [OF this Suc.prems(3), of ?s1] obtain k where
        k: "1 \<le> k" "k \<le> nat (n - 1) + 1"
           "sent (res_io (download_pdf W depth result dir (n - 1) doi ?s1))
              = sent ?s1 @ replicate k ?url"
        by blast
      show ?thesis
      proof (intro exI conjI)
        show "sent (res_io ?r) = sent s @ replicate (Suc k) ?url"
          using k(3) step by (simp add: replicate_snoc_step)
        show "Suc k \<le> nat n + 1" using k(2) True Suc.prems by auto
      qed simp
    next
      case False
      with Response Suc.prems(3) have "sent (res_io ?r) = sent s @ [?url]"
        by (auto simp: download_pdf_Suc Let_def split: sum.splits)
      then show ?thesis by (rule one)
    qed
  qed
qed

lemma download_pdf_all_5xx:
  "0 \<le> n \<Longrightarrow> nat n < depth \<Longrightarrow> urlparse W (onclick result) = Inr parts \<Longrightarrow>
   (\<And>k. length (sent s) \<le> k \<Longrightarrow> server_error (web W (file_url parts (onclick result)) k)) \<Longrightarrow>
   \<exists>s1. download_pdf W depth result dir n doi s = Ret False s1
      \<and> sent s1 = sent s @ replicate (nat n + 1) (file_url parts (onclick result))"
proof (induction depth arbitrary: n s)
  case 0
  then show ?case by simp
next
  case (Suc depth)
  let ?url = "file_url parts (onclick result)"
  let ?s1 = "asked (DownloadingFile ?url) ?url s"
  from Suc.prems(4) [of "length (sent s)"] obtain c t b where
    r: "web W ?url (length (sent s)) = Response c t b" "500 \<le> c" "c < 600"
    by (auto simp: server_error_def split: response.splits)
  show ?case
  proof (cases "n = 0")
    case True
    with r Suc.prems(3) show ?thesis by (simp add: download_pdf_Suc Let_def)
  next
    case False
    with r Suc.prems(3)
    have step: "download_pdf W (Suc depth) result dir n doi s
                  = download_pdf W depth result dir (n - 1) doi ?s1"
      by (simp add: download_pdf_Suc Let_def)
    from False Suc.prems have "0 \<le> n - 1" "nat (n - 1) < depth" by auto
    moreover have "\<And>k. length (sent ?s1) \<le> k \<Longrightarrow> server_error (web W ?url k)"
      using Suc.prems(4) by simp
    ultimately obtain s1 where
      k: "download_pdf W depth result dir (n - 1) doi ?s1 = Ret False s1"
         "sent s1 = sent ?s1 @ replicate (nat (n - 1) + 1) ?url"
      using Suc.IH [of "n - 1" ?s1] Suc.prems(3) by blast
    have "Suc (nat (n - 1)) = nat n" using False Suc.prems by auto
    then have "sent s1 = sent s @ replicate (nat n + 1) ?url"
      using k(2) by (simp add: replicate_snoc_step)
    then show ?thesis using step k(1) by simp
  qed
qed

text \<open>
  Claim C1, as amended. Let the retry budget be non-negative and smaller than the number
  of nested calls the interpreter allows. \<^verbatim>\<open>download\<close> returns after at least one
  and at most \<open>num_retries + 1\<close> requests, all for its URL. On the first response: a
  status below 400 returns the body text after that one request; a status in [400, 500)
  or a \<^verbatim>\<open>RequestException\<close> returns \<^verbatim>\<open>None\<close> after that one request; a
  status in [500, 600) returns \<^verbatim>\<open>None\<close> when the budget is 0 and otherwise
  retries with the budget decremented. When every response is a 5xx it returns
  \<^verbatim>\<open>None\<close> after exactly \<open>num_retries + 1\<close> requests (three for the default
  budget 2). \<^verbatim>\<open>download_pdf\<close>, for a link whose URL \<^verbatim>\<open>urlparse\<close> accepts,
  classifies in the same way, with \<^verbatim>\<open>False\<close> as the failure.
\<close>

theorem retry_spec:
  assumes "0 \<le> num_retries" and "nat num_retries < depth"
    and "urlparse W (onclick result) = Inr parts"
  shows
   "(\<exists>r s1 k. download W depth url num_retries s = Ret r s1
        \<and> 1 \<le> k \<and> k \<le> nat num_retries + 1 \<and> sent s1 = sent s @ replicate k url)
    \<and> (\<forall>c t b. web W url (length (sent s)) = Response c t b \<and> c < 400
          \<longrightarrow> download W depth url num_retries s
                = Ret (Some t) (asked (DownloadingPage url) url s))
    \<and> (\<forall>c t b. web W url (length (sent s)) = Response c t b \<and> 400 \<le> c \<and> c < 500
          \<longrightarrow> download W depth url num_retries s
                = Ret None (print (DownloadFailed c) (asked (DownloadingPage url) url s)))
    \<and> (web W url (length (sent s)) = RequestException
          \<longrightarrow> download W depth url num_retries s
                = Ret None (print DownloadError (asked (DownloadingPage url) url s)))
    \<and> (\<forall>c t b. web W url (length (sent s)) = Response c t b \<and> 500 \<le> c \<and> c < 600
          \<longrightarrow> download W depth url num_retries s
                = (if num_retries = 0
                   then Ret None (print (DownloadFailed c) (asked (DownloadingPage url) url s))
                   else download W (depth - 1) url (num_retries - 1)
                          (asked (DownloadingPage url) url s)))
    \<and> ((\<forall>k. length (sent s) \<le> k \<longrightarrow> server_error (web W url k))
          \<longrightarrow> (\<exists>s1. download W depth url num_retries s = Ret None s1
                 \<and> sent s1 = sent s @ replicate (nat num_retries + 1) url))
    \<and> (\<exists>k. 1 \<le> k \<and> k \<le> nat num_retries + 1
          \<and> sent (res_io (download_pdf W depth result dir num_retries doi s))
              = sent s @ replicate k (file_url parts (onclick result)))
    \<and> (\<forall>c t b. web W (file_url parts (onclick result)) (length (sent s)) = Response c t b
                \<and> 400 \<le> c \<and> c < 500
          \<longrightarrow> download_pdf W depth result dir num_retries doi s
                = Ret False (print (FileDownloadFailed c)
                    (asked (DownloadingFile (file_url parts (onclick result)))
                       (file_url parts (onclick result)) s)))
    \<and> (web W (file_url parts (onclick result)) (length (sent s)) = RequestException
          \<longrightarrow> download_pdf W depth result dir num_retries doi s
                = Ret False (print FileDownloadError
                    (asked (DownloadingFile (file_url parts (onclick result)))
                       (file_url parts (onclick result)) s)))
    \<and> (\<forall>c t b. web W (file_url parts (onclick result)) (length (sent s)) = Response c t b
                \<and> 500 \<le> c \<and> c < 600
          \<longrightarrow> download_pdf W depth result dir num_retries doi s
                = (if num_retries = 0
                   then Ret False (print (FileDownloadFailed c)
                          (asked (DownloadingFile (file_url parts (onclick result)))
                             (file_url parts (onclick result)) s))
                   else download_pdf W (depth - 1) result dir (num_retries - 1) doi
                          (asked (DownloadingFile (file_url parts (onclick result)))
                             (file_url parts (onclick result)) s)))
    \<and> ((\<forall>k. length (sent s) \<le> k
               \<longrightarrow> server_error (web W (file_url parts (onclick result)) k))
          \<longrightarrow> (\<exists>s1. download_pdf W depth result dir num_retries doi s = Ret False s1
                 \<and> sent s1 = sent s
                      @ replicate (nat num_retries + 1) (file_url parts (onclick result))))"
proof -
  obtain d where d: "depth = Suc d"
    using assms(2) by (cases depth) auto
  have a: "\<exists>r s1 k. download W depth url num_retries s = Ret r s1
        \<and> 1 \<le> k \<and> k \<le> nat num_retries + 1 \<and> sent s1 = sent s @ replicate k url"
    by (rule download_bound [OF assms(1,2)])
  have b: "(\<forall>k. length (sent s) \<le> k \<longrightarrow> server_error (web W url k))
          \<longrightarrow> (\<exists>s1. download W depth url num_retries s = Ret None s1
                 \<and> sent s1 = sent s @ replicate (nat num_retries + 1) url)"
    using download_all_5xx [OF assms(1,2), of s W url] by blast
  have c: "\<exists>k. 1 \<le> k \<and> k \<le> nat num_retries + 1
          \<and> sent (res_io (download_pdf W depth result dir num_retries doi s))
              = sent s @ replicate k (file_url parts (onclick result))"
    by (rule download_pdf_bound [OF assms])
  have e: "(\<forall>k. length (sent s) \<le> k
               \<longrightarrow> server_error (web W (file_url parts (onclick result)) k))
          \<longrightarrow> (\<exists>s1. download_pdf W depth result dir num_retries doi s = Ret False s1
                 \<and> sent s1 = sent s
                      @ replicate (nat num_retries + 1) (file_url parts (onclick result)))"
    using download_pdf_all_5xx [OF assms, of s dir doi] by blast
  show ?thesis
    apply (intro conjI)
              apply (rule a)
             apply (simp add: d download_Suc)
            apply (simp add: d download_Suc)
           apply (simp add: d download_Suc)
          apply (simp add: d download_Suc)
         apply (rule b)
        apply (rule c)
       apply (simp add: d download_pdf_Suc assms(3) Let_def)
      apply (simp add: d download_pdf_Suc assms(3) Let_def)
     apply (simp add: d download_pdf_Suc assms(3) Let_def)
    apply (rule e)
    done
qed

theorem retry_spec_witness:
  "(\<exists>s1. download down_world 5 ''u'' 2 io0 = Ret None s1 \<and> sent s1 = [''u'', ''u'', ''u''])
   \<and> (\<exists>s1. download_pdf down_world 5 \<lparr>title = ''t'', onclick = ''//mirror/file.pdf''\<rparr>
               ''papers'' 2 (Val (PyStr ''d'')) io0 = Ret False s1
          \<and> sent s1 = [''https://mirror/file.pdf'', ''https://mirror/file.pdf'',
                        ''https://mirror/file.pdf''])"
proof -
  have up: "urlparse down_world (onclick \<lparr>title = ''t'', onclick = ''//mirror/file.pdf''\<rparr>)
              = Inr \<lparr>scheme = [], netloc = ''mirror''\<rparr>"
    by (simp add: down_world_def demo_world_def landing_url_def)
  have srv: "server_error (web down_world url k)" for url k
    by (simp add: down_world_def server_error_def)
  have furl: "file_url \<lparr>scheme = [], netloc = ''mirror''\<rparr> ''//mirror/file.pdf''
                = ''https://mirror/file.pdf''"
    by (simp add: file_url_def)
  have three: "replicate 3 x = [x, x, x]" for x :: string
    by (simp add: numeral_3_eq_3)
  note spec = retry_spec [of 2 5 down_world _ _ "''u''" io0 "''papers''" "Val (PyStr ''d'')",
      OF _ _ up]
  have page: "\<exists>s1. download down_world 5 ''u'' 2 io0 = Ret None s1
                 \<and> sent s1 = sent io0 @ replicate (nat 2 + 1) ''u''"
    using spec [THEN conjunct2, THEN conjunct2, THEN conjunct2, THEN conjunct2,
        THEN conjunct2, THEN conjunct1] srv
    by simp
  have pdf: "\<exists>s1. download_pdf down_world 5 \<lparr>title = ''t'', onclick = ''//mirror/file.pdf''\<rparr>
               ''papers'' 2 (Val (PyStr ''d'')) io0 = Ret False s1
          \<and> sent s1 = sent io0 @ replicate (nat 2 + 1) ''https://mirror/file.pdf''"
    using spec [THEN conjunct2, THEN conjunct2, THEN conjunct2, THEN conjunct2,
        THEN conjunct2, THEN conjunct2, THEN conjunct2, THEN conjunct2, THEN conjunct2,
        THEN conjunct2] srv
    by (simp add: furl)
  from page pdf show ?thesis
    by (simp add: three io0_def)
qed

text \<open>
  The claim as stated fails for a negative budget, which is a true value in Python:
  with the budget \<open>-1\<close> a 503 is retried and the second response returned, and
  against a server that always answers 503 the retries only end with the interpreter's
  \<^verbatim>\<open>RecursionError\<close> (here after the three nested calls allowed).
\<close>

theorem retry_negative_budget_counterexample:
  "(\<exists>s1. download flaky_world 3 ''u'' (- 1) io0 = Ret (Some ''body'') s1
          \<and> sent s1 = [''u'', ''u''])
   \<and> (\<exists>s1. download down_world 3 ''u'' (- 1) io0 = Raise RecursionError s1
          \<and> sent s1 = [''u'', ''u'', ''u''])"
  by (simp add: numeral_3_eq_3 download_Suc flaky_world_def down_world_def io0_def)

section \<open>Properties of the crawler\<close>

lemma makedirs_all_writable:
  "(\<And>p. p \<in> set ps \<Longrightarrow> writable W p) \<Longrightarrow>
   makedirs_all W ps s = Ret () (s\<lparr>made_dirs := made_dirs s @ ps\<rparr>)"
  by (induction ps arbitrary: s) (simp_all add: makedirs_def)

lemma demo_scenario: "scenario (demo_world citation) citation ''%PDF''"
  by (simp add: scenario_def demo_world_def demo_tree_def landing_url_def)

text \<open>The crawler around its loop, when the robots file is read and the directories made.\<close>

lemma get_robot_parser_eq:
  "get_robot_parser W robot_url s =
     Ret (robots W robot_url)
       (case robots W robot_url of
          None \<Rightarrow> print RobotsError (s\<lparr>sent := sent s @ [robot_url]\<rparr>)
        | Some rp \<Rightarrow> s\<lparr>sent := sent s @ [robot_url]\<rparr>)"
  by (simp add: get_robot_parser_def split: option.splits)

lemma sci_hub_crawler_eq:
  assumes "\<And>p. writable W p"
  shows "sci_hub_crawler W doi_list cfg c s =
     (case crawl_loop W cfg (robots W (robots_url_of cfg)) doi_list
             \<lparr>domains = Map.empty, download_succ_cnt = 0, cache_arg = c\<rparr>
             (loop_start W cfg s) of
        Raise e s3 \<Rightarrow> Raise e s3
      | Ret L s3 \<Rightarrow>
          Ret L (print (Finished (length doi_list) (download_succ_cnt L))
                  (print (Finished (length doi_list) (download_succ_cnt L)) s3)))"
proof -
  have mk: "makedirs_all W ps s1 = Ret () (s1\<lparr>made_dirs := made_dirs s1 @ ps\<rparr>)" for ps s1
    by (rule makedirs_all_writable) (rule assms)
  show ?thesis
    by (simp add: sci_hub_crawler_def get_robot_parser_eq mk Let_def loop_start_def
        del: makedirs_all.simps cong: res.case_cong)
qed

lemma crawl_loop_single:
  "crawl_loop W cfg rp [doi] L s = crawl_one W cfg rp doi L s"
  by (simp split: res.splits)

lemma saved_loop_start [simp]: "saved (loop_start W cfg s) = saved s"
  by (simp add: loop_start_def get_robot_parser_eq Let_def split: option.splits)

lemma sent_loop_start [simp]: "sent (loop_start W cfg s) = sent s @ [robots_url_of cfg]"
  by (simp add: loop_start_def get_robot_parser_eq Let_def split: option.splits)

text \<open>
  One element of the list in the scenario, up to the point where the quartile is read:
  the landing page is fetched without waiting and the link is found.
\<close>

lemma scenario_crawl_one:
  assumes sc: "scenario W citation pdf"
    and up: "urlparse W landing_url = Inr parts"
    and cf: "can_fetch ''sheng'' landing_url"
    and c0: "cache c0 landing_url = None"
  shows "crawl_one W (demo_cfg\<lparr>cfg_dir := dir\<rparr>) (Some can_fetch) (PyStr ''10.1/abc'' # rest)
           \<lparr>domains = Map.empty, download_succ_cnt = 0, cache_arg = Some c0\<rparr> s =
     (let doi = PyStr ''10.1/abc'' # rest;
          result = \<lparr>title = citation, onclick = ''//mirror/file.pdf''\<rparr>;
          L1 = \<lparr>domains = [netloc parts \<mapsto> now s], download_succ_cnt = 0, cache_arg = Some c0\<rparr>;
          s3 = asked (DownloadingPage landing_url) landing_url s
      in case py_index doi 2 of
           Inl e \<Rightarrow> Raise e s3
         | Inr quartile \<Rightarrow>
            (case join_quartile dir quartile of
               Inl e \<Rightarrow> Raise e s3
             | Inr target_dir \<Rightarrow>
                (case filename_of result (Tup doi) of
                   Inl e \<Rightarrow> Raise e (asked (DownloadingFile ''https://mirror/file.pdf'')
                                        ''https://mirror/file.pdf'' s3)
                 | Inr filename \<Rightarrow>
                    record_success W landing_url result L1
                      (print (FileSaved (os_path_join target_dir filename))
                        ((asked (DownloadingFile ''https://mirror/file.pdf'')
                            ''https://mirror/file.pdf'' s3)
                         \<lparr>saved := saved s @ [(os_path_join target_dir filename, pdf)]\<rparr>)))))"
    (is "_ = ?rhs")
proof -
  from sc obtain page body tr where
    page: "\<And>k. web W landing_url k = Response 200 page body" and
    tr: "parse_html W page = Inr tr"
        "xpath_buttons tr = [\<lparr>attrs = [''onclick'' \<mapsto> demo_onclick]\<rparr>]"
        "xpath_citation_i tr = []" "xpath_citation tr = [citation]"
    by (auto simp: scenario_def)
  from sc obtain parts2 where up2: "urlparse W ''//mirror/file.pdf'' = Inr parts2" "scheme parts2 = []"
    by (auto simp: scenario_def)
  from sc obtain t2 where pdf: "\<And>k. web W ''https://mirror/file.pdf'' k = Response 200 t2 pdf"
    by (auto simp: scenario_def)
  from sc have wr: "\<And>p. writable W p" by (simp add: scenario_def)
  from sc obtain d where d: "recursion_limit W = Suc d"
    by (cases "recursion_limit W") (auto simp: scenario_def)
  let ?cfg = "demo_cfg\<lparr>cfg_dir := dir\<rparr>"
  have sel: "cfg_dir ?cfg = dir" "cfg_user_agent ?cfg = ''sheng''"
    "cfg_num_retries ?cfg = 2" "cfg_delay ?cfg = 3" "cfg_start_url ?cfg = ''www.sci-hub.wf''"
    "cfg_useSSL ?cfg" "\<not> cfg_nolimit ?cfg"
    by (simp_all add: demo_cfg_def)
  have url: "doi_parser (PyStr ''10.1/abc'') ''www.sci-hub.wf'' True = landing_url"
    by (simp add: doi_parser_def landing_url_def)
  have furl: "file_url parts2 ''//mirror/file.pdf'' = ''https://mirror/file.pdf''"
    by (simp add: file_url_def up2)
  have link: "get_link_xpath W (Some page) s2
                = Ret (Some \<lparr>title = citation, onclick = ''//mirror/file.pdf''\<rparr>) s2" for s2
    by (rule get_link_xpath_found [OF tr(1,2) _ _ href_search_demo tr(3,4)])
      (simp_all add: demo_onclick_def)
  have idx0: "py_index (PyStr ''10.1/abc'' # rest) 0 = Inr (PyStr ''10.1/abc'')"
    by (simp add: py_index_def)
  have "crawl_one W ?cfg (Some can_fetch) (PyStr ''10.1/abc'' # rest)
           \<lparr>domains = Map.empty, download_succ_cnt = 0, cache_arg = Some c0\<rparr> s
        = fetch_branch W ?cfg (PyStr ''10.1/abc'' # rest) landing_url
           \<lparr>domains = Map.empty, download_succ_cnt = 0, cache_arg = Some c0\<rparr> s"
    using cf
    by (simp add: crawl_one_def idx0 sel url cache_hit_def getitem_def truthy_def
        may_fetch_def c0)
  also have "\<dots> = ?rhs"
  proof (cases "py_index (PyStr ''10.1/abc'' # rest) 2")
    case (Inl e)
    then show ?thesis
      by (simp add: fetch_branch_def wait_first [OF up] sel d download_Suc page link)
  next
    case quartile: (Inr quartile)
    show ?thesis
    proof (cases "join_quartile dir quartile")
      case (Inl e)
      with quartile show ?thesis
        by (simp add: fetch_branch_def wait_first [OF up] sel d download_Suc page link)
    next
      case target: (Inr target_dir)
      show ?thesis
      proof (cases "filename_of \<lparr>title = citation, onclick = ''//mirror/file.pdf''\<rparr>
                      (Tup (PyStr ''10.1/abc'' # rest))")
        case (Inl e)
        with quartile target show ?thesis
          by (simp add: fetch_branch_def wait_first [OF up] sel d download_Suc page link
              download_pdf_Suc up2 furl pdf Let_def)
      next
        case (Inr filename)
        with quartile target show ?thesis
          by (simp add: fetch_branch_def wait_first [OF up] sel d download_Suc page link
              download_pdf_Suc up2 furl pdf wr Let_def)
      qed
    qed
  qed
  finally show ?thesis .
qed

lemma sanitize_example:
  "get_valid_filename ''Example Title'' default_name_len = ''Example_Title''"
  by (simp add: get_valid_filename_def py_slice_to_def default_name_len_def
      re_sub_underscore_def allowed_char_def)

lemma demo_robots_url:
  "robots_url_of (demo_cfg\<lparr>cfg_dir := dir\<rparr>) = ''https://www.sci-hub.wf/robots.txt''"
  by (simp add: robots_url_of_def demo_cfg_def)

text \<open>The whole run on a list of one element in the scenario.\<close>

lemma scenario_run:
  assumes sc: "scenario W citation pdf"
  shows "sci_hub_crawler W [doi] (demo_cfg\<lparr>cfg_dir := dir\<rparr>) c s =
       (case crawl_one W (demo_cfg\<lparr>cfg_dir := dir\<rparr>)
               (robots W ''https://www.sci-hub.wf/robots.txt'') doi
               \<lparr>domains = Map.empty, download_succ_cnt = 0, cache_arg = c\<rparr>
               (loop_start W (demo_cfg\<lparr>cfg_dir := dir\<rparr>) s) of
          Raise e s3 \<Rightarrow> Raise e s3
        | Ret L s3 \<Rightarrow>
            Ret L (print (Finished 1 (download_succ_cnt L))
                    (print (Finished 1 (download_succ_cnt L)) s3)))"
proof -
  from sc have wr: "\<And>p. writable W p" by (simp add: scenario_def)
  show ?thesis
    by (simp add: sci_hub_crawler_eq [OF wr] demo_robots_url
        crawl_loop_single del: crawl_loop.simps cong: res.case_cong)
qed

lemma scenario_success:
  assumes sc: "scenario W ''Example Title'' pdf"
  shows "\<exists>L s1. sci_hub_crawler W [[PyStr ''10.1/abc'', factor, PyStr ''Q2'']]
                    (demo_cfg\<lparr>cfg_dir := dir\<rparr>)
                    (Some \<lparr>cache_dir = cd, cache = Map.empty\<rparr>) s = Ret L s1
           \<and> saved s1 = saved s
                @ [(os_path_join (os_path_join dir ''Q2'') ''Example_Title.pdf'', pdf)]
           \<and> cache_arg L = Some \<lparr>cache_dir = cd,
                                 cache = [landing_url \<mapsto> ''https://mirror/file.pdf'']\<rparr>
           \<and> download_succ_cnt L = 1
           \<and> last (printed s1) = Finished 1 1"
proof -
  let ?doi = "[PyStr ''10.1/abc'', factor, PyStr ''Q2'']"
  let ?c0 = "\<lparr>cache_dir = cd, cache = Map.empty\<rparr>"
  let ?res = "\<lparr>title = ''Example Title'', onclick = ''//mirror/file.pdf''\<rparr>"
  let ?path = "os_path_join (os_path_join dir ''Q2'') ''Example_Title.pdf''"
  from sc obtain can_fetch where
    rob: "robots W ''https://www.sci-hub.wf/robots.txt'' = Some can_fetch"
         "can_fetch ''sheng'' landing_url"
    by (auto simp: scenario_def)
  from sc obtain parts where up: "urlparse W landing_url = Inr parts"
    by (auto simp: scenario_def)
  from sc have wr: "\<And>p. writable W p" by (simp add: scenario_def)
  have idx: "py_index ?doi 2 = Inr (PyStr ''Q2'')"
    by (simp add: py_index_def)
  have q2: "join_quartile dir (PyStr ''Q2'') = Inr (os_path_join dir ''Q2'')"
    by (simp add: join_quartile_def)
  have fname: "filename_of ?res (Tup ?doi) = Inr ''Example_Title.pdf''"
    by (simp add: filename_of_def sanitize_example)
  have one: "\<exists>L s1. crawl_one W (demo_cfg\<lparr>cfg_dir := dir\<rparr>) (Some can_fetch) ?doi
           \<lparr>domains = Map.empty, download_succ_cnt = 0, cache_arg = Some ?c0\<rparr> s0 = Ret L s1
           \<and> saved s1 = saved s0 @ [(?path, pdf)]
           \<and> cache_arg L = Some \<lparr>cache_dir = cd,
                                 cache = [landing_url \<mapsto> ''https://mirror/file.pdf'']\<rparr>
           \<and> download_succ_cnt L = 1" for s0
    by (simp add: scenario_crawl_one [where can_fetch = can_fetch, OF sc up rob(2)]
        idx q2 fname record_success_def setitem_eq wr Let_def)
  from one [of "loop_start W (demo_cfg\<lparr>cfg_dir := dir\<rparr>) s"] obtain L s1 where
    L: "crawl_one W (demo_cfg\<lparr>cfg_dir := dir\<rparr>) (Some can_fetch) ?doi
           \<lparr>domains = Map.empty, download_succ_cnt = 0, cache_arg = Some ?c0\<rparr>
           (loop_start W (demo_cfg\<lparr>cfg_dir := dir\<rparr>) s) = Ret L s1"
       "saved s1 = saved s @ [(?path, pdf)]"
       "cache_arg L = Some \<lparr>cache_dir = cd,
                                 cache = [landing_url \<mapsto> ''https://mirror/file.pdf'']\<rparr>"
       "download_succ_cnt L = 1"
    by auto
  have "sci_hub_crawler W [?doi] (demo_cfg\<lparr>cfg_dir := dir\<rparr>) (Some ?c0) s
          = Ret L (print (Finished 1 1) (print (Finished 1 1) s1))"
    using L(1,4) by (simp add: scenario_run [OF sc] rob(1))
  then show ?thesis
    using L(2,3,4) by (simp add: print_def)
qed

lemma quartile_path:
  "dir \<noteq> [] \<Longrightarrow> last dir \<noteq> CHR ''/'' \<Longrightarrow>
   os_path_join (os_path_join dir ''Q2'') ''Example_Title.pdf'' = dir @ ''/Q2/Example_Title.pdf''"
  by (simp add: os_path_join_def)

text \<open>
  Claim C5, as amended. In the scenario, for the list of the one element
  \<^verbatim>\<open>["10.1/abc", factor, "Q2"]\<close> (the quartile is read at index 2), an empty cache
  and the keyword defaults, the run returns, has saved exactly one more file, with the
  mirror's content, at the path joined from the target directory, \<^verbatim>\<open>Q2\<close> and
  \<^verbatim>\<open>Example_Title.pdf\<close> (which is \<^verbatim>\<open>dir/Q2/Example_Title.pdf\<close> for a directory
  name that is not empty and has no slash at its end), leaves the cache mapping the
  landing URL to \<^verbatim>\<open>https://mirror/file.pdf\<close> and nothing else, and reports one
  success out of one.
\<close>

theorem end_to_end:
  assumes "scenario W ''Example Title'' pdf"
  shows "(\<exists>L s1. sci_hub_crawler W [[PyStr ''10.1/abc'', factor, PyStr ''Q2'']]
                    (demo_cfg\<lparr>cfg_dir := dir\<rparr>)
                    (Some \<lparr>cache_dir = cd, cache = Map.empty\<rparr>) s = Ret L s1
           \<and> saved s1 = saved s
                @ [(os_path_join (os_path_join dir ''Q2'') ''Example_Title.pdf'', pdf)]
           \<and> cache_arg L = Some \<lparr>cache_dir = cd,
                                 cache = [landing_url \<mapsto> ''https://mirror/file.pdf'']\<rparr>
           \<and> download_succ_cnt L = 1
           \<and> last (printed s1) = Finished 1 1)
         \<and> (dir \<noteq> [] \<and> last dir \<noteq> CHR ''/'' \<longrightarrow>
              os_path_join (os_path_join dir ''Q2'') ''Example_Title.pdf''
                = dir @ ''/Q2/Example_Title.pdf'')
         \<and> landing_url = doi_parser (PyStr ''10.1/abc'') (cfg_start_url demo_cfg)
                            (cfg_useSSL demo_cfg)"
  using scenario_success [OF assms, of factor dir cd s] quartile_path [of dir]
  by (simp add: landing_url_def doi_parser_def demo_cfg_def)

theorem end_to_end_witness:
  "\<exists>L s1. sci_hub_crawler (demo_world ''Example Title'') [demo_item] demo_cfg (Some empty_cache) io0
             = Ret L s1
         \<and> saved s1 = [(''papers/Q2/Example_Title.pdf'', ''%PDF'')]
         \<and> cache_arg L = Some \<lparr>cache_dir = ''cache.txt'',
                               cache = [landing_url \<mapsto> ''https://mirror/file.pdf'']\<rparr>
         \<and> download_succ_cnt L = 1"
proof -
  have "demo_cfg\<lparr>cfg_dir := ''papers''\<rparr> = demo_cfg"
    by (simp add: demo_cfg_def)
  with end_to_end [OF demo_scenario, of "PyNum ''3.2''" "''papers''" "''cache.txt''" io0]
  show ?thesis
    by (auto simp: demo_item_def empty_cache_def io0_def)
qed

text \<open>
  On the pair \<^verbatim>\<open>("10.1/abc", "Q2")\<close> of the claim as stated, the run fetches the
  landing page and then fails on \<^verbatim>\<open>doi[2]\<close> with an \<^verbatim>\<open>IndexError\<close>; no file is
  saved.
\<close>

theorem end_to_end_pair_counterexample:
  "\<exists>s1. sci_hub_crawler (demo_world ''Example Title'') [[PyStr ''10.1/abc'', PyStr ''Q2'']]
           demo_cfg (Some empty_cache) io0 = Raise IndexError s1
        \<and> saved s1 = []"
proof -
  have cfg: "demo_cfg\<lparr>cfg_dir := ''papers''\<rparr> = demo_cfg"
    by (simp add: demo_cfg_def)
  have up: "urlparse (demo_world ''Example Title'') landing_url
              = Inr \<lparr>scheme = ''https'', netloc = ''www.sci-hub.wf''\<rparr>"
    by (simp add: demo_world_def)
  have rob: "robots (demo_world ''Example Title'') ''https://www.sci-hub.wf/robots.txt''
               = Some (\<lambda>agent u. True)"
    by (simp add: demo_world_def)
  have idx: "py_index [PyStr ''10.1/abc'', PyStr ''Q2''] 2 = Inl IndexError"
    by (simp add: py_index_def)
  show ?thesis
    using scenario_run [OF demo_scenario, where doi = "[PyStr ''10.1/abc'', PyStr ''Q2'']"
        and dir = "''papers''" and c = "Some empty_cache" and s = io0]
      scenario_crawl_one [where can_fetch = "\<lambda>agent u. True" and ?c0.0 = empty_cache
        and rest = "[PyStr ''Q2'']" and dir = "''papers''"
        and s = "loop_start (demo_world ''Example Title'') demo_cfg io0",
        OF demo_scenario up]
    by (simp add: cfg rob idx empty_cache_def io0_def)
qed

text \<open>
  Claim C4. \<^verbatim>\<open>download_pdf\<close> takes the title when it has at least five characters
  and the fallback otherwise, and the crawler passes the whole element of the list as
  the fallback, not the identifier in it. With a title of three characters the run
  therefore ends in the \<^verbatim>\<open>TypeError\<close> of \<^verbatim>\<open>re.sub\<close>, after the file has been
  requested and before anything is saved.
\<close>

theorem short_title_failing_input:
  "\<exists>s1. sci_hub_crawler (demo_world ''Abc'') [demo_item] demo_cfg (Some empty_cache) io0
           = Raise TypeError s1
        \<and> saved s1 = []"
proof -
  have cfg: "demo_cfg\<lparr>cfg_dir := ''papers''\<rparr> = demo_cfg"
    by (simp add: demo_cfg_def)
  have up: "urlparse (demo_world ''Abc'') landing_url
              = Inr \<lparr>scheme = ''https'', netloc = ''www.sci-hub.wf''\<rparr>"
    by (simp add: demo_world_def)
  have rob: "robots (demo_world ''Abc'') ''https://www.sci-hub.wf/robots.txt''
               = Some (\<lambda>agent u. True)"
    by (simp add: demo_world_def)
  have idx: "py_index demo_item 2 = Inr (PyStr ''Q2'')"
    by (simp add: py_index_def demo_item_def)
  have q2: "join_quartile ''papers'' (PyStr ''Q2'') = Inr ''papers/Q2''"
    by (simp add: join_quartile_def os_path_join_def)
  have fname: "filename_of \<lparr>title = ''Abc'', onclick = ''//mirror/file.pdf''\<rparr> (Tup demo_item)
                 = Inl TypeError"
    by (simp add: filename_of_def)
  show ?thesis
    using scenario_run [OF demo_scenario, where doi = demo_item
        and dir = "''papers''" and c = "Some empty_cache" and s = io0]
      scenario_crawl_one [where can_fetch = "\<lambda>agent u. True" and ?c0.0 = empty_cache
        and rest = "[PyNum ''3.2'', PyStr ''Q2'']" and dir = "''papers''"
        and s = "loop_start (demo_world ''Abc'') demo_cfg io0", OF demo_scenario up]
    by (simp add: cfg rob idx q2 fname empty_cache_def io0_def demo_item_def [symmetric])
qed

section \<open>Frame and counter properties of the stages\<close>

lemma filename_of_string:
  "filename_of result (Val (PyStr name)) =
     Inr (get_valid_filename (if 5 \<le> length (title result) then title result else name)
            default_name_len @ ''.pdf'')"
  by (simp add: filename_of_def)

lemma filename_not_absolute:
  "hd (get_valid_filename name default_name_len @ ''.pdf'') \<noteq> CHR ''/''"
proof (cases "get_valid_filename name default_name_len")
  case Nil
  then show ?thesis by simp
next
  case (Cons c cs)
  then have "allowed_char c"
    using get_valid_filename_allowed [of c name] by simp
  then have "c \<noteq> CHR ''/''"
    by (auto simp: allowed_char_def)
  with Cons show ?thesis by simp
qed

lemma os_path_join_under:
  "b \<noteq> [] \<Longrightarrow> hd b \<noteq> CHR ''/'' \<Longrightarrow>
   os_path_join a b = (if a = [] \<or> last a = CHR ''/'' then a @ b else a @ ''/'' @ b)"
  by (simp add: os_path_join_def)

lemma download_pdf_saves:
  assumes "urlparse W (onclick result) = Inr parts"
    and "web W (file_url parts (onclick result)) (length (sent s)) = Response c t content"
    and "c < 400"
    and "\<And>p. writable W p"
  shows "download_pdf W (Suc d) result dir n (Val (PyStr name)) s =
     (let filename = get_valid_filename (if 5 \<le> length (title result) then title result else name)
                       default_name_len @ ''.pdf'';
          path = (if dir = [] \<or> last dir = CHR ''/'' then dir @ filename else dir @ ''/'' @ filename);
          url = file_url parts (onclick result)
      in Ret True (print (FileSaved path)
           ((asked (DownloadingFile url) url s)\<lparr>saved := saved s @ [(path, content)]\<rparr>)))"
proof -
  let ?f = "get_valid_filename (if 5 \<le> length (title result) then title result else name)
                       default_name_len @ ''.pdf''"
  have "os_path_join dir ?f = (if dir = [] \<or> last dir = CHR ''/'' then dir @ ?f else dir @ ''/'' @ ?f)"
    by (rule os_path_join_under) (simp_all add: filename_not_absolute)
  then show ?thesis
    using assms by (simp add: download_pdf_Suc filename_of_string Let_def)
qed

text \<open>What each stage leaves of the requests sent and the files saved.\<close>

lemma wait_io:
  "wait W url delay doms s = Ret d s1 \<Longrightarrow> sent s1 = sent s \<and> saved s1 = saved s"
  by (auto simp: wait_def Let_def sleep_def split: sum.splits option.splits if_splits)

lemma wait_raise_io: "wait W url delay doms s = Raise e s1 \<Longrightarrow> s1 = s"
  by (auto simp: wait_def Let_def split: sum.splits)

lemma download_sent:
  "\<exists>k. sent (res_io (download W depth url n s)) = sent s @ replicate k url
       \<and> (0 < depth \<longrightarrow> 1 \<le> k)"
proof (induction depth arbitrary: n s)
  case 0
  show ?case by (simp add: exI [of _ 0])
next
  case (Suc depth)
  let ?s1 = "asked (DownloadingPage url) url s"
  from Suc.IH [of "n - 1" ?s1] obtain k where
    k: "sent (res_io (download W depth url (n - 1) ?s1)) = sent ?s1 @ replicate k url"
    by blast
  then have k': "sent (res_io (download W depth url (n - 1) ?s1)) = sent s @ replicate (Suc k) url"
    by (simp add: replicate_snoc_step)
  have "sent (res_io (download W (Suc depth) url n s)) = sent s @ replicate 1 url
      \<or> sent (res_io (download W (Suc depth) url n s)) = sent s @ replicate (Suc k) url"
    using k' by (auto simp: download_Suc split: response.splits)
  then show ?case by (metis Suc_le_mono le0 One_nat_def le_refl)
qed

lemma download_saved: "saved (res_io (download W depth url n s)) = saved s"
  by (induction depth arbitrary: n s) (auto simp: download_Suc split: response.splits)

lemma get_link_xpath_io:
  "get_link_xpath W html s = Ret r s1 \<Longrightarrow> sent s1 = sent s \<and> saved s1 = saved s"
  by (auto simp: get_link_xpath_def get_link_try_def Let_def
      split: res.splits sum.splits if_splits list.splits)

lemma download_pdf_sent:
  "\<exists>ys. sent (res_io (download_pdf W depth result dir n doi s)) = sent s @ ys"
proof (induction depth arbitrary: n s)
  case 0
  show ?case by simp
next
  case (Suc depth)
  show ?case
  proof (cases "urlparse W (onclick result)")
    case (Inl e)
    then show ?thesis by (simp add: download_pdf_Suc)
  next
    case (Inr parts)
    let ?url = "file_url parts (onclick result)"
    let ?s1 = "asked (DownloadingFile ?url) ?url s"
    from Suc.IH [of "n - 1" ?s1] obtain ys where
      "sent (res_io (download_pdf W depth result dir (n - 1) doi ?s1)) = sent s @ ?url # ys"
      by auto
    with Inr show ?thesis
      by (auto simp: download_pdf_Suc Let_def split: response.splits sum.splits)
  qed
qed

lemma download_pdf_saved:
  "download_pdf W depth result dir n doi s = Ret ok s1 \<Longrightarrow>
   (ok \<longrightarrow> length (saved s1) = length (saved s) + 1) \<and> (\<not> ok \<longrightarrow> saved s1 = saved s)"
proof (induction depth arbitrary: n s)
  case 0
  then show ?case by simp
next
  case (Suc depth)
  from Suc.prems obtain parts where parts: "urlparse W (onclick result) = Inr parts"
    by (cases "urlparse W (onclick result)") (auto simp: download_pdf_Suc)
  let ?url = "file_url parts (onclick result)"
  let ?s1 = "asked (DownloadingFile ?url) ?url s"
  have "saved ?s1 = saved s" by simp
  with Suc.IH [of "n - 1" ?s1] Suc.prems parts show ?case
    by (auto simp: download_pdf_Suc Let_def split: response.splits sum.splits if_splits)
qed

lemma record_success_io:
  "record_success W url result L s = Ret L1 s1 \<Longrightarrow> sent s1 = sent s \<and> saved s1 = saved s"
  by (auto simp: record_success_def setitem_eq print_def split: option.splits if_splits)

lemma record_success_returns: "\<exists>L1 s1. record_success W url result L s = Ret L1 s1"
  by (simp add: record_success_def setitem_eq split: option.splits)

lemma record_success_cnt:
  "record_success W url result L s = Ret L1 s1 \<Longrightarrow>
   download_succ_cnt L1 = download_succ_cnt L + 1"
  by (auto simp: record_success_def setitem_eq split: option.splits)

lemma download_ret_io:
  "download W depth url n s = Ret r s1 \<Longrightarrow> saved s1 = saved s"
  using download_saved [of W depth url n s] by simp

lemma fetch_branch_cnt:
  assumes "fetch_branch W cfg doi url L s = Ret L1 s1"
  shows "download_succ_cnt L1 = download_succ_cnt L + (length (saved s1) - length (saved s))
         \<and> length (saved s1) \<le> length (saved s) + 1"
proof -
  from assms obtain doms sa where
    w: "wait W url (cfg_delay cfg) (Some (domains L)) s = Ret doms sa"
    by (auto simp: fetch_branch_def split: res.splits)
  from assms w obtain html sb where
    d: "download W (recursion_limit W) url (cfg_num_retries cfg) sa = Ret html sb"
    by (auto simp: fetch_branch_def Let_def split: res.splits)
  from assms w d obtain r sc where
    g: "get_link_xpath W html sb = Ret r sc"
    by (auto simp: fetch_branch_def Let_def split: res.splits)
  have sc: "saved sc = saved s"
    using wait_io [OF w] download_ret_io [OF d] get_link_xpath_io [OF g] by simp
  show ?thesis
  proof (cases r)
    case None
    with assms w d g sc show ?thesis
      by (auto simp: fetch_branch_def Let_def)
  next
    case (Some result)
    with assms w d g obtain quartile target_dir ok sd where
      q: "py_index doi 2 = Inr quartile" "join_quartile (cfg_dir cfg) quartile = Inr target_dir"
      and p: "download_pdf W (recursion_limit W) result target_dir (cfg_num_retries cfg)
                (Tup doi) sc = Ret ok sd"
      by (auto simp: fetch_branch_def Let_def split: res.splits sum.splits)
    show ?thesis
    proof (cases ok)
      case True
      with assms w d g Some q p
      have rs: "record_success W url result (L\<lparr>domains := doms\<rparr>) sd = Ret L1 s1"
        by (simp add: fetch_branch_def Let_def)
      from record_success_io [OF rs] record_success_cnt [OF rs] download_pdf_saved [OF p] True sc
      show ?thesis by simp
    next
      case False
      with assms w d g Some q p have "L1 = L\<lparr>domains := doms\<rparr>" "s1 = sd"
        by (simp_all add: fetch_branch_def Let_def)
      with download_pdf_saved [OF p] False sc show ?thesis by simp
    qed
  qed
qed

lemma crawl_one_cnt:
  assumes "crawl_one W cfg rp doi L s = Ret L1 s1"
  shows "download_succ_cnt L1 =
           download_succ_cnt L
           + (if cache_hit (cache_arg L) (landing cfg doi) = None
              then length (saved s1) - length (saved s) else 1)
         \<and> length (saved s1) \<le> length (saved s) + 1
         \<and> (cache_hit (cache_arg L) (landing cfg doi) \<noteq> None \<longrightarrow> saved s1 = saved s)"
proof -
  from assms obtain doi0 rest where doi: "doi = doi0 # rest"
    by (cases doi) (auto simp: crawl_one_def py_index_def)
  then have idx: "py_index doi 0 = Inr doi0"
    and land: "landing cfg doi = doi_parser doi0 (cfg_start_url cfg) (cfg_useSSL cfg)"
    by (simp_all add: py_index_def landing_def)
  show ?thesis
  proof (cases "cache_hit (cache_arg L) (landing cfg doi)")
    case (Some found)
    with assms idx land show ?thesis
      by (auto simp: crawl_one_def)
  next
    case None
    show ?thesis
    proof (cases "may_fetch rp (cfg_user_agent cfg) (landing cfg doi) (cfg_nolimit cfg)")
      case True
      with assms idx land None
      have "fetch_branch W cfg doi (landing cfg doi) L s = Ret L1 s1"
        by (simp add: crawl_one_def)
      from fetch_branch_cnt [OF this] None show ?thesis by simp
    next
      case False
      with assms idx land None show ?thesis
        by (auto simp: crawl_one_def)
    qed
  qed
qed

lemma crawl_loop_cnt:
  "crawl_loop W cfg rp dois L s = Ret L1 s1 \<Longrightarrow>
   download_succ_cnt L \<le> download_succ_cnt L1 \<and>
   download_succ_cnt L1 \<le> download_succ_cnt L + length dois"
proof (induction dois arbitrary: L s)
  case Nil
  then show ?case by simp
next
  case (Cons doi rest)
  from Cons.prems obtain L2 s2 where
    one: "crawl_one W cfg rp doi L s = Ret L2 s2" and
    more: "crawl_loop W cfg rp rest L2 s2 = Ret L1 s1"
    by (auto split: res.splits)
  from crawl_one_cnt [OF one]
  have "download_succ_cnt L \<le> download_succ_cnt L2 \<and> download_succ_cnt L2 \<le> download_succ_cnt L + 1"
    by (auto split: if_splits)
  with Cons.IH [OF more] show ?case by auto
qed

lemma sci_hub_crawler_cnt:
  assumes "sci_hub_crawler W doi_list cfg c s = Ret L1 s1"
  shows "download_succ_cnt L1 \<le> length doi_list
         \<and> last (printed s1) = Finished (length doi_list) (download_succ_cnt L1)"
proof -
  from assms obtain rp sa sb sc where
    loop: "crawl_loop W cfg rp doi_list
             \<lparr>domains = Map.empty, download_succ_cnt = 0, cache_arg = c\<rparr> sb = Ret L1 sc"
    and s1: "s1 = print (Finished (length doi_list) (download_succ_cnt L1))
                    (print (Finished (length doi_list) (download_succ_cnt L1)) sc)"
    by (auto simp: sci_hub_crawler_def Let_def split: res.splits)
  from crawl_loop_cnt [OF loop] s1 show ?thesis
    by (simp add: print_def)
qed

section \<open>The success counter\<close>

text \<open>
  Claim C10. One pass of the loop body that returns adds to the counter either 1, on a
  cache hit, in which case no file is saved, or else the number of files saved in the
  pass, which is at most one; so the counter grows by at most one for each identifier,
  and a run that returns has a counter of at most the length of the list, which is the
  count its closing message reports.
\<close>

theorem success_count_spec:
  "(crawl_one W cfg rp doi L s = Ret L1 s1 \<longrightarrow>
      download_succ_cnt L1 =
        download_succ_cnt L
        + (if cache_hit (cache_arg L) (landing cfg doi) = None
           then length (saved s1) - length (saved s) else 1)
      \<and> length (saved s1) \<le> length (saved s) + 1
      \<and> (cache_hit (cache_arg L) (landing cfg doi) \<noteq> None \<longrightarrow> saved s1 = saved s))
   \<and> (crawl_loop W cfg rp doi_list L s = Ret L2 s2 \<longrightarrow>
        download_succ_cnt L \<le> download_succ_cnt L2
        \<and> download_succ_cnt L2 \<le> download_succ_cnt L + length doi_list)
   \<and> (sci_hub_crawler W doi_list cfg c s = Ret L3 s3 \<longrightarrow>
        download_succ_cnt L3 \<le> length doi_list
        \<and> last (printed s3) = Finished (length doi_list) (download_succ_cnt L3))"
  using crawl_one_cnt [of W cfg rp doi L s L1 s1] crawl_loop_cnt [of W cfg rp doi_list L s L2 s2]
    sci_hub_crawler_cnt [of W doi_list cfg c s L3 s3]
  by blast

theorem success_count_spec_witness:
  "\<exists>L s1. sci_hub_crawler (demo_world ''Example Title'') [demo_item] demo_cfg (Some empty_cache) io0
             = Ret L s1
         \<and> download_succ_cnt L \<le> 1
         \<and> last (printed s1) = Finished 1 (download_succ_cnt L)"
proof -
  have cfg: "demo_cfg\<lparr>cfg_dir := ''papers''\<rparr> = demo_cfg"
    by (simp add: demo_cfg_def)
  from scenario_success [OF demo_scenario, of "PyNum ''3.2''" "''papers''" "''cache.txt''" io0]
  obtain L s1 where
    run: "sci_hub_crawler (demo_world ''Example Title'') [demo_item] demo_cfg (Some empty_cache) io0
            = Ret L s1"
    by (auto simp: cfg demo_item_def empty_cache_def)
  from success_count_spec [where W = "demo_world ''Example Title''" and doi_list = "[demo_item]"
      and cfg = demo_cfg and c = "Some empty_cache" and s = io0 and ?L3.0 = L and ?s3.0 = s1] run
  show ?thesis by simp
qed

section \<open>Cache hits\<close>

text \<open>
  Claim C2, as amended. When a cache object is given and holds, for the landing URL of
  the element, a value that is not the empty string, the loop body returns with the
  counter incremented by one and the other variables untouched; it prints the value
  found and does nothing else: no request is sent, the clock is not advanced (no wait),
  no file is saved and the cache file is not rewritten. Whatever the robots policy is,
  it is not consulted.
\<close>

theorem cache_hit_spec:
  assumes "doi = doi0 # rest"
    and "cache_arg L = Some self"
    and "getitem self (doi_parser doi0 (cfg_start_url cfg) (cfg_useSSL cfg)) = Some found"
    and "found \<noteq> []"
  shows "crawl_one W cfg rp doi L s =
           Ret (L\<lparr>download_succ_cnt := download_succ_cnt L + 1\<rparr>)
               (print (AlreadyDownloaded found) s)
         \<and> sent (res_io (crawl_one W cfg rp doi L s)) = sent s
         \<and> now (res_io (crawl_one W cfg rp doi L s)) = now s
         \<and> saved (res_io (crawl_one W cfg rp doi L s)) = saved s
         \<and> dumps (res_io (crawl_one W cfg rp doi L s)) = dumps s"
  using assms by (simp add: crawl_one_def py_index_def cache_hit_def truthy_def print_def)

theorem cache_hit_spec_witness:
  "crawl_one down_world demo_cfg None demo_item
     \<lparr>domains = Map.empty, download_succ_cnt = 0,
        cache_arg = Some (empty_cache\<lparr>cache := [landing_url \<mapsto> ''https://mirror/file.pdf'']\<rparr>)\<rparr> io0
   = Ret \<lparr>domains = Map.empty, download_succ_cnt = 1,
        cache_arg = Some (empty_cache\<lparr>cache := [landing_url \<mapsto> ''https://mirror/file.pdf'']\<rparr>)\<rparr>
       (print (AlreadyDownloaded ''https://mirror/file.pdf'') io0)"
proof -
  let ?c = "empty_cache\<lparr>cache := [landing_url \<mapsto> ''https://mirror/file.pdf'']\<rparr>"
  have "getitem ?c (doi_parser (PyStr ''10.1/abc'') (cfg_start_url demo_cfg) (cfg_useSSL demo_cfg))
          = Some ''https://mirror/file.pdf''"
    by (simp add: getitem_def doi_parser_def demo_cfg_def landing_url_def)
  from cache_hit_spec [OF _ _ this, of demo_item "[PyNum ''3.2'', PyStr ''Q2'']"
      "\<lparr>domains = Map.empty, download_succ_cnt = 0, cache_arg = Some ?c\<rparr>" down_world None io0]
  show ?thesis by (simp add: demo_item_def)
qed

text \<open>
  The claim as stated asks only that the URL be a key of the cache. The source tests
  \<^verbatim>\<open>cache[url]\<close> for truth, so a key bound to the empty string is no hit: against
  a server that always answers 503 the landing page is requested three times and the
  counter stays at 0.
\<close>

theorem cache_key_empty_value_counterexample:
  "landing demo_cfg demo_item = landing_url
   \<and> getitem stale_cache landing_url = Some []
   \<and> (\<exists>L1 s1. crawl_one down_world demo_cfg (Some (\<lambda>agent url. True)) demo_item
                 \<lparr>domains = Map.empty, download_succ_cnt = 0, cache_arg = Some stale_cache\<rparr> io0
               = Ret L1 s1
             \<and> sent s1 = [landing_url, landing_url, landing_url]
             \<and> download_succ_cnt L1 = 0)"
proof -
  let ?L = "\<lparr>domains = Map.empty, download_succ_cnt = 0, cache_arg = Some stale_cache\<rparr>"
  have land: "landing demo_cfg demo_item = landing_url"
    by (simp add: landing_def demo_item_def demo_cfg_def doi_parser_def landing_url_def)
  have key: "getitem stale_cache landing_url = Some []"
    by (simp add: getitem_def stale_cache_def)
  have up: "urlparse down_world landing_url = Inr \<lparr>scheme = ''https'', netloc = ''www.sci-hub.wf''\<rparr>"
    by (simp add: down_world_def demo_world_def)
  have srv: "server_error (web down_world url k)" for url k
    by (simp add: down_world_def server_error_def)
  have lim: "recursion_limit down_world = 1000"
    by (simp add: down_world_def demo_world_def)
  from download_all_5xx [of 2 1000 io0 down_world landing_url] srv obtain s1 where
    dl: "download down_world 1000 landing_url 2 io0 = Ret None s1"
        "sent s1 = [landing_url, landing_url, landing_url]"
    by (auto simp: io0_def numeral_3_eq_3)
  have gl: "get_link_xpath down_world None s1 = Ret None (print (ParseError TypeError) s1)"
    by (rule get_link_parse_error) (simp add: fromstring_def)
  have "crawl_one down_world demo_cfg (Some (\<lambda>agent url. True)) demo_item ?L io0
          = fetch_branch down_world demo_cfg demo_item landing_url ?L io0"
    using land key
    by (simp add: crawl_one_def py_index_def demo_item_def landing_def cache_hit_def truthy_def
        may_fetch_def)
  also have "\<dots> = Ret (?L\<lparr>domains := [''www.sci-hub.wf'' \<mapsto> now io0]\<rparr>)
                      (print (ParseError TypeError) s1)"
    using dl(1) gl
    by (simp add: fetch_branch_def wait_first [OF up] lim demo_cfg_def)
  finally show ?thesis
    using land key dl(2) by simp
qed

section \<open>Without a robots policy\<close>

lemma crawl_one_no_policy:
  assumes "doi \<noteq> []" and "\<not> cfg_nolimit cfg"
  shows "crawl_one W cfg None doi L s =
     Ret (L\<lparr>download_succ_cnt := download_succ_cnt L
              + (if cache_hit (cache_arg L) (landing cfg doi) = None then 0 else 1)\<rparr>)
         (print (skip_report cfg (cache_arg L) doi) s)"
proof -
  from assms(1) obtain doi0 rest where doi: "doi = doi0 # rest"
    by (cases doi) auto
  show ?thesis
    using assms(2)
    by (cases "cache_hit (cache_arg L) (doi_parser doi0 (cfg_start_url cfg) (cfg_useSSL cfg))")
      (simp_all add: crawl_one_def py_index_def doi landing_def skip_report_def may_fetch_def)
qed

lemma crawl_loop_no_policy:
  assumes "\<forall>doi \<in> set dois. doi \<noteq> []" and "\<not> cfg_nolimit cfg"
  shows "crawl_loop W cfg None dois L s =
     Ret (L\<lparr>download_succ_cnt := download_succ_cnt L
              + length (filter (\<lambda>doi. cache_hit (cache_arg L) (landing cfg doi) \<noteq> None) dois)\<rparr>)
         (s\<lparr>printed := printed s @ map (skip_report cfg (cache_arg L)) dois\<rparr>)"
  using assms(1)
proof (induction dois arbitrary: L s)
  case Nil
  then show ?case by simp
next
  case (Cons doi rest)
  then have "doi \<noteq> []" and rest: "\<forall>d \<in> set rest. d \<noteq> []"
    by simp_all
  from crawl_one_no_policy [OF this(1) assms(2)] Cons.IH [OF rest]
  show ?case
    by (simp add: print_def)
qed

lemma fetch_branch_first_request:
  assumes up: "urlparse W url = Inr parts" and lim: "0 < recursion_limit W"
  shows "\<exists>others. sent (res_io (fetch_branch W cfg doi url L s)) = sent s @ url # others"
proof -
  have "\<exists>doms sa. wait W url (cfg_delay cfg) (Some (domains L)) s = Ret doms sa"
    by (simp add: wait_eq [OF up] Let_def)
  then obtain doms sa where
    w: "wait W url (cfg_delay cfg) (Some (domains L)) s = Ret doms sa"
    by blast
  have sa: "sent sa = sent s"
    using wait_io [OF w] by simp
  let ?d = "download W (recursion_limit W) url (cfg_num_retries cfg) sa"
  from download_sent [of W "recursion_limit W" url "cfg_num_retries cfg" sa] lim sa
  obtain k where k: "sent (res_io ?d) = sent s @ replicate k url" "1 \<le> k"
    by auto
  then have d: "sent (res_io ?d) = sent s @ url # replicate (k - 1) url"
    by (cases k) simp_all
  show ?thesis
  proof (cases ?d)
    case (Raise e sb)
    with w d show ?thesis by (simp add: fetch_branch_def)
  next
    case dl: (Ret html sb)
    from get_link_xpath_returns [of W html sb] obtain r sc where
      g: "get_link_xpath W html sb = Ret r sc" by blast
    have sc: "sent sc = sent s @ url # replicate (k - 1) url"
      using get_link_xpath_io [OF g] d dl by simp
    show ?thesis
    proof (cases r)
      case None
      with w dl g sc show ?thesis by (simp add: fetch_branch_def)
    next
      case (Some result)
      show ?thesis
      proof (cases "py_index doi 2")
        case (Inl e)
        with w dl g sc Some show ?thesis by (simp add: fetch_branch_def)
      next
        case quartile: (Inr quartile)
        show ?thesis
        proof (cases "join_quartile (cfg_dir cfg) quartile")
          case (Inl e)
          with w dl g sc Some quartile show ?thesis by (simp add: fetch_branch_def)
        next
          case target: (Inr target_dir)
          let ?p = "download_pdf W (recursion_limit W) result target_dir (cfg_num_retries cfg)
                      (Tup doi) sc"
          from download_pdf_sent [of W "recursion_limit W" result target_dir
              "cfg_num_retries cfg" "Tup doi" sc] sc
          obtain ys where p: "sent (res_io ?p) = sent s @ url # (replicate (k - 1) url @ ys)"
            by auto
          show ?thesis
          proof (cases ?p)
            case (Raise e sd)
            with w dl g Some quartile target p show ?thesis by (simp add: fetch_branch_def)
          next
            case pdf: (Ret ok sd)
            show ?thesis
            proof (cases ok)
              case False
              with w dl g Some quartile target p pdf show ?thesis
                by (simp add: fetch_branch_def)
            next
              case True
              from record_success_returns [of W url result "L\<lparr>domains := doms\<rparr>" sd]
              obtain L2 se where
                rs: "record_success W url result (L\<lparr>domains := doms\<rparr>) sd = Ret L2 se"
                by blast
              from record_success_io [OF rs] p pdf
              have "sent se = sent s @ url # (replicate (k - 1) url @ ys)" by simp
              with w dl g Some quartile target pdf True rs show ?thesis
                by (simp add: fetch_branch_def)
            qed
          qed
        qed
      qed
    qed
  qed
qed

text \<open>
  Claim C6. Let reading the robots file fail, so that \<^verbatim>\<open>get_robot_parser\<close> prints
  the error and returns \<^verbatim>\<open>None\<close>, and let every element of the list have an
  identifier. Without the override the loop returns having only printed one message for
  each element, "blocked" for each one that is not a cache hit, and counted the cache
  hits; a whole run then sends the request for the robots file and no other, and saves
  nothing. With the override, the loop body on an element that is not a cache hit is
  the fetch branch, exactly as under a policy that allows everything, and when the
  landing URL parses the first request it sends is the one for the landing page.
\<close>

theorem no_policy_spec:
  assumes "robots W (robots_url_of cfg) = None"
    and "\<forall>doi \<in> set doi_list. doi \<noteq> []"
  shows
   "get_robot_parser W (robots_url_of cfg) s0
      = Ret None (print RobotsError (s0\<lparr>sent := sent s0 @ [robots_url_of cfg]\<rparr>))
    \<and> (\<not> cfg_nolimit cfg \<longrightarrow>
         crawl_loop W cfg None doi_list L s =
           Ret (L\<lparr>download_succ_cnt := download_succ_cnt L
                    + length (filter (\<lambda>doi. cache_hit (cache_arg L) (landing cfg doi) \<noteq> None)
                                doi_list)\<rparr>)
               (s\<lparr>printed := printed s @ map (skip_report cfg (cache_arg L)) doi_list\<rparr>)
         \<and> (\<forall>doi \<in> set doi_list. cache_hit (cache_arg L) (landing cfg doi) = None
               \<longrightarrow> skip_report cfg (cache_arg L) doi = Blocked (landing cfg doi))
         \<and> ((\<forall>path. writable W path) \<longrightarrow>
              (\<exists>L1 s1. sci_hub_crawler W doi_list cfg c s0 = Ret L1 s1
                 \<and> sent s1 = sent s0 @ [robots_url_of cfg] \<and> saved s1 = saved s0)))
    \<and> (cfg_nolimit cfg \<longrightarrow>
         (\<forall>doi \<in> set doi_list. cache_hit (cache_arg L) (landing cfg doi) = None \<longrightarrow>
            crawl_one W cfg None doi L s = fetch_branch W cfg doi (landing cfg doi) L s
            \<and> crawl_one W cfg None doi L s
                = crawl_one W cfg (Some (\<lambda>agent url. True)) doi L s
            \<and> ((\<exists>parts. urlparse W (landing cfg doi) = Inr parts) \<and> 0 < recursion_limit W
                 \<longrightarrow> (\<exists>others. sent (res_io (crawl_one W cfg None doi L s))
                                  = sent s @ landing cfg doi # others))))"
proof (intro conjI impI ballI)
  show "get_robot_parser W (robots_url_of cfg) s0
      = Ret None (print RobotsError (s0\<lparr>sent := sent s0 @ [robots_url_of cfg]\<rparr>))"
    using assms(1) by (simp add: get_robot_parser_eq)
next
  assume "\<not> cfg_nolimit cfg"
  then show "crawl_loop W cfg None doi_list L s =
           Ret (L\<lparr>download_succ_cnt := download_succ_cnt L
                    + length (filter (\<lambda>doi. cache_hit (cache_arg L) (landing cfg doi) \<noteq> None)
                                doi_list)\<rparr>)
               (s\<lparr>printed := printed s @ map (skip_report cfg (cache_arg L)) doi_list\<rparr>)"
    by (rule crawl_loop_no_policy [OF assms(2)])
next
  fix doi
  assume "cache_hit (cache_arg L) (landing cfg doi) = None"
  then show "skip_report cfg (cache_arg L) doi = Blocked (landing cfg doi)"
    by (simp add: skip_report_def)
next
  assume nl: "\<not> cfg_nolimit cfg" and "\<forall>path. writable W path"
  then have wr: "\<And>p. writable W p" by simp
  show "\<exists>L1 s1. sci_hub_crawler W doi_list cfg c s0 = Ret L1 s1
          \<and> sent s1 = sent s0 @ [robots_url_of cfg] \<and> saved s1 = saved s0"
    by (simp add: sci_hub_crawler_eq [OF wr] assms(1) crawl_loop_no_policy [OF assms(2) nl]
        print_def)
next
  fix doi
  assume nl: "cfg_nolimit cfg" and "doi \<in> set doi_list"
    and miss: "cache_hit (cache_arg L) (landing cfg doi) = None"
  with assms(2) obtain doi0 rest where doi: "doi = doi0 # rest"
    by (cases doi) auto
  from nl miss show eq: "crawl_one W cfg None doi L s = fetch_branch W cfg doi (landing cfg doi) L s"
    by (simp add: crawl_one_def py_index_def doi landing_def may_fetch_def)
  from nl miss show "crawl_one W cfg None doi L s
                = crawl_one W cfg (Some (\<lambda>agent url. True)) doi L s"
    by (simp add: crawl_one_def py_index_def doi landing_def may_fetch_def)
  assume "(\<exists>parts. urlparse W (landing cfg doi) = Inr parts) \<and> 0 < recursion_limit W"
  then obtain parts where "urlparse W (landing cfg doi) = Inr parts" "0 < recursion_limit W"
    by blast
  from fetch_branch_first_request [OF this, of cfg doi L s] eq
  show "\<exists>others. sent (res_io (crawl_one W cfg None doi L s))
                                  = sent s @ landing cfg doi # others"
    by simp
qed

theorem no_policy_spec_witness:
  "crawl_loop ((demo_world [])\<lparr>robots := (\<lambda>url. None)\<rparr>) demo_cfg None [demo_item]
      \<lparr>domains = Map.empty, download_succ_cnt = 0, cache_arg = Some empty_cache\<rparr> io0
     = Ret \<lparr>domains = Map.empty, download_succ_cnt = 0, cache_arg = Some empty_cache\<rparr>
         (io0\<lparr>printed := [Blocked landing_url]\<rparr>)
   \<and> crawl_one ((demo_world [])\<lparr>robots := (\<lambda>url. None)\<rparr>) (demo_cfg\<lparr>cfg_nolimit := True\<rparr>)
        None demo_item
        \<lparr>domains = Map.empty, download_succ_cnt = 0, cache_arg = Some empty_cache\<rparr> io0
     = fetch_branch ((demo_world [])\<lparr>robots := (\<lambda>url. None)\<rparr>) (demo_cfg\<lparr>cfg_nolimit := True\<rparr>)
        demo_item landing_url
        \<lparr>domains = Map.empty, download_succ_cnt = 0, cache_arg = Some empty_cache\<rparr> io0"
proof -
  let ?W = "(demo_world [])\<lparr>robots := (\<lambda>url. None)\<rparr>"
  let ?L = "\<lparr>domains = Map.empty, download_succ_cnt = 0, cache_arg = Some empty_cache\<rparr>"
  have land: "landing cfg demo_item = landing_url"
    if "cfg_start_url cfg = ''www.sci-hub.wf''" "cfg_useSSL cfg" for cfg
    using that by (simp add: landing_def demo_item_def doi_parser_def landing_url_def)
  have miss: "cache_hit (Some empty_cache) landing_url = None"
    by (simp add: cache_hit_def getitem_def empty_cache_def truthy_def)
  have items: "\<forall>doi \<in> set [demo_item]. doi \<noteq> []"
    by (simp add: demo_item_def)
  have off: "\<not> cfg_nolimit demo_cfg" and on: "cfg_nolimit (demo_cfg\<lparr>cfg_nolimit := True\<rparr>)"
    by (simp_all add: demo_cfg_def)
  have l1: "landing demo_cfg demo_item = landing_url"
    and l2: "landing (demo_cfg\<lparr>cfg_nolimit := True\<rparr>) demo_item = landing_url"
    by (rule land; simp add: demo_cfg_def)+
  have a: "crawl_loop ?W demo_cfg None [demo_item] ?L io0 = Ret ?L (io0\<lparr>printed := [Blocked landing_url]\<rparr>)"
    using no_policy_spec [of ?W demo_cfg "[demo_item]" io0 ?L io0 None, OF _ items] off
    by (simp add: l1 miss skip_report_def io0_def)
  have b: "crawl_one ?W (demo_cfg\<lparr>cfg_nolimit := True\<rparr>) None demo_item ?L io0
     = fetch_branch ?W (demo_cfg\<lparr>cfg_nolimit := True\<rparr>) demo_item landing_url ?L io0"
    using no_policy_spec [of ?W "demo_cfg\<lparr>cfg_nolimit := True\<rparr>" "[demo_item]" io0 ?L io0 None,
        OF _ items] on
    by (simp add: l2 miss)
  from a b show ?thesis by simp
qed

end
